theory Spec2Isabelle
  imports Complex_Main
begin

section \<open>Values, errors and the numeric library\<close>

text \<open>
  The program is \<^verbatim>\<open>src/process_EELS.py\<close>: the classes \<^verbatim>\<open>Line\<close> (one curve),
  \<^verbatim>\<open>Lines\<close> (a list of curves) and \<^verbatim>\<open>Mapping\<close> (a list of curves laid out on a
  pixel grid). Samples are modelled as \<^typ>\<open>real\<close>: the theorems below are about which
  samples are kept, which indices are used and which object is written, not about
  rounding. A numpy array of floats is a \<^typ>\<open>real list\<close>.

  Every exception the source can raise on the modelled paths is a value of \<open>error\<close>.
\<close>

datatype error =
    ValueError | IndexError | TypeError | UnboundLocalError | AttributeError
  | OverflowError | LibraryError

text \<open>Python's \<^verbatim>\<open>min\<close> and \<^verbatim>\<open>max\<close>: a left fold, \<^verbatim>\<open>ValueError\<close> on an empty sequence.\<close>

fun py_min :: "real list \<Rightarrow> error + real" where
  "py_min [] = Inl ValueError"
| "py_min (x # xs) = Inr (fold min xs x)"

fun py_max :: "real list \<Rightarrow> error + real" where
  "py_max [] = Inl ValueError"
| "py_max (x # xs) = Inr (fold max xs x)"

text \<open>\<^verbatim>\<open>np.argmax\<close>: the first index holding the maximum.\<close>

fun np_argmax :: "real list \<Rightarrow> error + nat" where
  "np_argmax [] = Inl ValueError"
| "np_argmax (x # xs) =
     Inr (length (takeWhile (\<lambda>y. y \<noteq> fold max xs x) (x # xs)))"

text \<open>
  \<^verbatim>\<open>np.linspace(a, b, num)\<close>: \<open>num\<close> evenly spaced samples from \<open>a\<close> to \<open>b\<close>, both
  ends included.
\<close>

definition np_linspace :: "real \<Rightarrow> real \<Rightarrow> nat \<Rightarrow> real list" where
  "np_linspace a b num =
     map (\<lambda>i. a + real i * ((b - a) / real (num - 1))) [0..<num]"

text \<open>
  Element-wise \<^verbatim>\<open>+\<close> of two one-dimensional arrays with numpy's broadcasting: equal
  lengths, or one operand of length one; any other pair of shapes raises.
\<close>

definition np_add :: "real list \<Rightarrow> real list \<Rightarrow> error + real list" where
  "np_add a b =
     (if length a = length b then Inr (map2 (+) a b)
      else if length a = 1 then Inr (map (\<lambda>y. hd a + y) b)
      else if length b = 1 then Inr (map (\<lambda>x. x + hd b) a)
      else Inl ValueError)"

text \<open>
  The three calls into scipy and scikit-learn are parameters of the model. Each may
  raise (\<open>Inl\<close>).
  \<^item> \<open>UnivariateSpline x y\<close> is \<^verbatim>\<open>UnivariateSpline(x, y, s=0, k=3)\<close>: the interpolant,
    a function that can be evaluated anywhere.
  \<^item> \<open>PCA_fit_transform ncomp m\<close> is the pair \<^verbatim>\<open>(W, H)\<close> of
    \<^verbatim>\<open>PCA(n_components=ncomp, random_state=0)\<close> fitted to the matrix \<open>m\<close>:
    \<^verbatim>\<open>W = model.fit_transform(m)\<close>, \<^verbatim>\<open>H = model.components_\<close>, each read through
    its entries: \<open>W i j\<close> is \<^verbatim>\<open>W[i, j]\<close>.
  \<^item> \<open>find_peaks v height distance prominence\<close> is \<^verbatim>\<open>scipy.signal.find_peaks\<close>; it
    returns the peak indices and \<^verbatim>\<open>dic['peak_heights']\<close>.
\<close>

record ext =
  UnivariateSpline :: "real list \<Rightarrow> real list \<Rightarrow> error + (real \<Rightarrow> real)"
  PCA_fit_transform ::
    "nat \<Rightarrow> real list list \<Rightarrow> error + ((nat \<Rightarrow> nat \<Rightarrow> real) \<times> (nat \<Rightarrow> nat \<Rightarrow> real))"
  find_peaks :: "real list \<Rightarrow> real \<Rightarrow> real \<Rightarrow> real option \<Rightarrow> error + (nat list \<times> real list)"

section \<open>Line: one curve\<close>

text \<open>
  \<^verbatim>\<open>self.data\<close> is the two-element list \<^verbatim>\<open>[x, y]\<close>: \<open>fst\<close> is \<^verbatim>\<open>data[0]\<close>, \<open>snd\<close> is
  \<^verbatim>\<open>data[1]\<close>.
\<close>

record Line =
  data :: "real list \<times> real list"
  name :: string
  height :: real

definition Line_init :: "real list \<times> real list \<Rightarrow> string \<Rightarrow> Line" where
  "Line_init d n = \<lparr>data = d, name = n, height = 0\<rparr>"

text \<open>
  \<^verbatim>\<open>Line.slice_data\<close> (lines 24-35). The two comprehensions run inside a bare
  \<^verbatim>\<open>try/except\<close>; when either raises (\<^verbatim>\<open>min\<close> of an empty \<open>xrange\<close>, or \<^verbatim>\<open>data[1][i]\<close>
  past the end of a shorter y array) the handler prints and the \<^verbatim>\<open>return\<close> then reads an
  unbound local.
\<close>

definition slice_data :: "Line \<Rightarrow> real list \<Rightarrow> error + (real list \<times> real list)" where
  "slice_data l xrange =
     (case py_min xrange of Inl e \<Rightarrow> Inl UnboundLocalError
      | Inr lo \<Rightarrow>
     (case py_max xrange of Inl e \<Rightarrow> Inl UnboundLocalError
      | Inr hi \<Rightarrow>
        (let xs = fst (data l); ys = snd (data l);
             sel = filter (\<lambda>i. xs ! i \<ge> lo \<and> xs ! i \<le> hi) [0..<length xs]
         in if list_all (\<lambda>i. i < length ys) sel
            then Inr (map (nth xs) sel, map (nth ys) sel)
            else Inl UnboundLocalError)))"

text \<open>\<^verbatim>\<open>Line.spline\<close> (lines 51-61).\<close>

definition spline :: "ext \<Rightarrow> real list \<times> real list \<Rightarrow> error + (real \<Rightarrow> real)" where
  "spline ext d = UnivariateSpline ext (fst d) (snd d)"

text \<open>
  \<^verbatim>\<open>Line.get_HWHM\<close> (lines 63-67). \<open>indx\<close> are the positions of the y samples above half
  the maximum; \<^verbatim>\<open>data[0][indx]\<close> raises when a position is past the end of x, and
  \<^verbatim>\<open>[-1]\<close> raises when no sample is above half the maximum.
\<close>

definition get_HWHM :: "Line \<Rightarrow> error + real" where
  "get_HWHM l =
     (let xs = fst (data l); ys = snd (data l)
      in case py_max ys of Inl e \<Rightarrow> Inl e
         | Inr m \<Rightarrow>
           (let half_max = m / 2;
                indx = filter (\<lambda>i. ys ! i - half_max > 0) [0..<length ys]
            in if \<not> list_all (\<lambda>i. i < length xs) indx then Inl IndexError
               else if indx = [] then Inl IndexError
               else Inr \<bar>xs ! last indx - xs ! hd indx\<bar>))"

text \<open>
  \<^verbatim>\<open>Line.get_linspace\<close> (lines 69-79). With \<open>step > 0\<close> the point count is a float,
  which \<^verbatim>\<open>np.linspace\<close> rejects; with neither \<open>step\<close> nor \<open>num\<close> positive the method
  falls off its end and returns \<^verbatim>\<open>None\<close>, on which every caller's next operation raises
  \<^verbatim>\<open>TypeError\<close>. Every call in the source uses the defaults \<open>num = 2000\<close>, \<open>step = 0\<close>.
\<close>

definition get_linspace :: "real list \<Rightarrow> int \<Rightarrow> real \<Rightarrow> error + real list" where
  "get_linspace xrange num step =
     (if step > 0 then
        (case py_max xrange of Inl e \<Rightarrow> Inl e | Inr hi \<Rightarrow>
        (case py_min xrange of Inl e \<Rightarrow> Inl e | Inr lo \<Rightarrow> Inl TypeError))
      else if num > 0 then
        (case py_min xrange of Inl e \<Rightarrow> Inl e | Inr lo \<Rightarrow>
        (case py_max xrange of Inl e \<Rightarrow> Inl e | Inr hi \<Rightarrow>
           Inr (np_linspace lo hi (nat num))))
      else Inl TypeError)"

text \<open>
  \<^verbatim>\<open>Line.find_zlp_max\<close> (lines 81-99), in three parts. \<open>zlp_coarse\<close> is pass 1
  (lines 86-90): the sample of the 2000-point grid over the whole x range where the
  spline is largest. \<open>zlp_xrange\<close> is line 95. \<open>zlp_refine\<close> is pass 2 (lines 96-97).
\<close>

definition num_sigma :: real where
  "num_sigma = 3"

definition zlp_coarse :: "(real \<Rightarrow> real) \<Rightarrow> Line \<Rightarrow> error + real" where
  "zlp_coarse y_spl l =
     (case py_min (fst (data l)) of Inl e \<Rightarrow> Inl e | Inr lo \<Rightarrow>
     (case py_max (fst (data l)) of Inl e \<Rightarrow> Inl e | Inr hi \<Rightarrow>
     (case get_linspace [lo, hi] 2000 0 of Inl e \<Rightarrow> Inl e | Inr x_zlp \<Rightarrow>
     (case np_argmax (map y_spl x_zlp) of Inl e \<Rightarrow> Inl e | Inr i \<Rightarrow>
        Inr (x_zlp ! i)))))"

definition zlp_xrange :: "real \<Rightarrow> real \<Rightarrow> real list" where
  "zlp_xrange test_shift width =
     [test_shift - width / 2 * num_sigma, test_shift + width / 2 * num_sigma]"

definition zlp_refine :: "(real \<Rightarrow> real) \<Rightarrow> real list \<Rightarrow> error + (real \<times> real)" where
  "zlp_refine y_spl xrange =
     (case get_linspace xrange 2000 0 of Inl e \<Rightarrow> Inl e | Inr x_zlp \<Rightarrow>
     (case np_argmax (map y_spl x_zlp) of Inl e \<Rightarrow> Inl e | Inr i \<Rightarrow>
     (case py_max (map y_spl x_zlp) of Inl e \<Rightarrow> Inl e | Inr h \<Rightarrow>
        Inr (x_zlp ! i, h))))"

text \<open>
  The method returns \<open>(shift, height)\<close> and stores \<open>height\<close> in the object (line 98);
  an exception leaves the object as it was.
\<close>

definition find_zlp_max :: "ext \<Rightarrow> Line \<Rightarrow> (error + real \<times> real) \<times> Line" where
  "find_zlp_max ext l =
     (case spline ext (data l) of Inl e \<Rightarrow> (Inl e, l) | Inr y_spl \<Rightarrow>
     (case zlp_coarse y_spl l of Inl e \<Rightarrow> (Inl e, l) | Inr test_shift \<Rightarrow>
     (case get_HWHM l of Inl e \<Rightarrow> (Inl e, l) | Inr width \<Rightarrow>
     (case zlp_refine y_spl (zlp_xrange test_shift width) of Inl e \<Rightarrow> (Inl e, l)
      | Inr (shift, h) \<Rightarrow> (Inr (shift, h), l\<lparr>height := h\<rparr>)))))"

text \<open>
  \<^verbatim>\<open>Line.align\<close> (lines 101-115). The first component is the exception or the returned
  \<^verbatim>\<open>self.data\<close>; the second is the object afterwards, which keeps every assignment made
  before an exception.
\<close>

definition Line_align :: "ext \<Rightarrow> Line \<Rightarrow> (error + real list \<times> real list) \<times> Line" where
  "Line_align ext l =
     (case find_zlp_max ext l of (Inl e, l1) \<Rightarrow> (Inl e, l1)
      | (Inr (shift, h), l1) \<Rightarrow>
     (case spline ext (data l1) of Inl e \<Rightarrow> (Inl e, l1) | Inr y_spl \<Rightarrow>
       (let l2 = l1\<lparr>data := (fst (data l1), map (\<lambda>x. y_spl (x + shift)) (fst (data l1)))\<rparr>
        in case py_min (fst (data l2)) of Inl e \<Rightarrow> (Inl e, l2) | Inr lo \<Rightarrow>
          (case py_max (fst (data l2)) of Inl e \<Rightarrow> (Inl e, l2) | Inr hi \<Rightarrow>
          (case slice_data l2 [lo, hi - shift] of Inl e \<Rightarrow> (Inl e, l2)
           | Inr d \<Rightarrow> (Inr d, l2\<lparr>data := d\<rparr>))))))"

text \<open>
  \<^verbatim>\<open>Line.denoise_LLR\<close> (lines 158-195). \<open>window_size\<close> is lines 166-169: with fewer
  than two samples \<^verbatim>\<open>data[0][1]\<close> raises; with a zero spacing the float quotient is
  infinite or not a number and \<^verbatim>\<open>int\<close> raises. \<open>LLR_blocks\<close> is lines 175-181, the
  matrix of absolute values of the overlapping windows.
\<close>

definition window_size :: "real \<Rightarrow> Line \<Rightarrow> error + int" where
  "window_size dE l =
     (let xs = fst (data l)
      in if length xs < 2 then Inl IndexError
         else (let myscale = \<bar>xs ! 1 - xs ! 0\<bar>
               in if myscale = 0 then Inl (if dE = 0 then ValueError else OverflowError)
                  else (let nx = \<lfloor>dE / myscale\<rfloor>
                        in Inr (if nx mod 2 = 0 then nx + 1 else nx))))"

definition LLR_blocks :: "int \<Rightarrow> real list \<Rightarrow> real list list" where
  "LLR_blocks nx ys =
     map (\<lambda>i. map abs (take (nat nx) (drop i ys))) [0..<nat (int (length ys) - nx + 1)]"

text \<open>
  \<^verbatim>\<open>np.zeros\<close> rejects a negative dimension, scikit-learn rejects a matrix without
  rows, and \<^verbatim>\<open>W[:, 0]\<close> does not exist when no component was asked for.
\<close>

definition denoise_LLR :: "ext \<Rightarrow> real \<Rightarrow> nat \<Rightarrow> Line \<Rightarrow> error + (real list \<times> real list)" where
  "denoise_LLR ext dE ncomp l =
     (case window_size dE l of Inl e \<Rightarrow> Inl e | Inr nx \<Rightarrow>
       (let xs = fst (data l); ys = snd (data l);
            num_block = int (length ys) - nx + 1
        in if num_block < 0 \<or> nx < 0 then Inl ValueError
           else if num_block = 0 then Inl ValueError
           else (case PCA_fit_transform ext ncomp (LLR_blocks nx ys) of Inl e \<Rightarrow> Inl e
                 | Inr (W, H) \<Rightarrow>
                   if ncomp = 0 then Inl IndexError
                   else (let y_mean = sum_list (take (nat num_block) ys) / real (nat num_block);
                             mydata = map (\<lambda>i. W i 0 * H 0 (nat (nx div 2)) + y_mean)
                                          [0..<nat num_block]
                         in Inr (take (nat num_block) (drop (nat (nx div 2)) xs), mydata)))))"

text \<open>
  \<^verbatim>\<open>Line.find_peak\<close> (lines 126-156). \<open>config_find_peak\<close> is a dictionary that may
  override any of the four defaults. The first statement stores the slice in the
  object; \<open>find_peak_rest\<close> is everything after it and does not assign to the object
  again. Drawing (\<^verbatim>\<open>display_peaks\<close>) has no effect on the data.
\<close>

record config_find_peak =
  cfg_height :: "real option"
  cfg_distance :: "real option"
  cfg_prominence :: "real option"
  cfg_display_peaks :: "bool option"

definition find_peak_rest ::
  "ext \<Rightarrow> real list \<Rightarrow> config_find_peak \<Rightarrow> Line \<Rightarrow> error + (real list \<times> real list)" where
  "find_peak_rest ext xrange cfg l =
     (case denoise_LLR ext (2 / 100) 1 l of Inl e \<Rightarrow> Inl e | Inr (x, sm_y) \<Rightarrow>
     (case spline ext (x, sm_y) of Inl e \<Rightarrow> Inl e | Inr y_spl \<Rightarrow>
     (case get_linspace xrange 2000 0 of Inl e \<Rightarrow> Inl e | Inr x_line \<Rightarrow>
     (case py_min (map y_spl x_line) of Inl e \<Rightarrow> Inl e | Inr lowest \<Rightarrow>
     (case find_peaks ext (map y_spl x_line) lowest (real (length x_line) / 100) None of
        Inl e \<Rightarrow> Inl e
      | Inr (peaks, peak_heights) \<Rightarrow>
          (let h = (case cfg_height cfg of None \<Rightarrow> lowest | Some v \<Rightarrow> v);
               d = (case cfg_distance cfg of None \<Rightarrow> 1 / 100 | Some v \<Rightarrow> v);
               p = (case cfg_prominence cfg of None \<Rightarrow> 1 / 10000 | Some v \<Rightarrow> v)
           in if peaks \<noteq> [] then
                (case py_max peak_heights of Inl e \<Rightarrow> Inl e | Inr tallest \<Rightarrow>
                (case find_peaks ext (map y_spl x_line) h (real (length x_line) * d)
                        (Some (tallest * p)) of
                   Inl e \<Rightarrow> Inl e
                 | Inr (peaks2, peak_heights2) \<Rightarrow>
                     Inr (map (nth x_line) peaks2, peak_heights2)))
              else Inr (map (nth x_line) peaks, peak_heights)))))))"

definition find_peak ::
  "ext \<Rightarrow> real list \<Rightarrow> config_find_peak \<Rightarrow> Line \<Rightarrow> (error + real list \<times> real list) \<times> Line" where
  "find_peak ext xrange cfg l =
     (case slice_data l xrange of Inl e \<Rightarrow> (Inl e, l)
      | Inr d \<Rightarrow> (find_peak_rest ext xrange cfg (l\<lparr>data := d\<rparr>), l\<lparr>data := d\<rparr>))"

section \<open>Lines: a list of curves\<close>

text \<open>
  A \<^verbatim>\<open>Lines\<close> object holds references to \<^verbatim>\<open>Line\<close> objects, and the class \<^verbatim>\<open>Line\<close> defines
  no \<^verbatim>\<open>__eq__\<close>: \<^verbatim>\<open>in\<close> and \<^verbatim>\<open>list.remove\<close> compare objects by identity. So the objects
  live in a heap, a \<^verbatim>\<open>Line\<close> for every reference, and \<open>elements\<close> is a list of
  references. The arrays inside a \<^verbatim>\<open>Line\<close> are never written in place (every method
  assigns a new array to \<^verbatim>\<open>self.data\<close>), so they are plain values.
\<close>

type_synonym ref = nat

type_synonym heap = "ref \<Rightarrow> Line"

record Lines =
  elements :: "ref list"
  heights :: "real list"
  PCA_coefficients :: "real list list"
  PCA_components :: "(real list \<times> real list) list"

text \<open>
  \<^verbatim>\<open>deepcopy\<close> of a list of objects: every object is copied once into a fresh
  reference, so two slots that held the same object hold the same copy. \<open>memo\<close> pairs
  each original with its copy and \<open>fresh\<close> is the first unused reference.
\<close>

fun deepcopy_refs ::
  "ref list \<Rightarrow> (ref \<times> ref) list \<Rightarrow> ref \<Rightarrow> heap \<Rightarrow> ref list \<times> ref \<times> heap" where
  "deepcopy_refs [] memo fresh h = ([], fresh, h)"
| "deepcopy_refs (r # rs) memo fresh h =
     (case map_of memo r of
        Some r' \<Rightarrow>
          (case deepcopy_refs rs memo fresh h of (out, fresh', h') \<Rightarrow> (r' # out, fresh', h'))
      | None \<Rightarrow>
          (case deepcopy_refs rs ((r, fresh) # memo) (Suc fresh) (h(fresh := h r)) of
             (out, fresh', h') \<Rightarrow> (fresh # out, fresh', h')))"

text \<open>\<^verbatim>\<open>Lines.__init__\<close> (lines 200-207) and \<^verbatim>\<open>set_initial_elements\<close> (lines 209-213).\<close>

definition Lines_init :: "ref list \<Rightarrow> ref \<Rightarrow> heap \<Rightarrow> Lines \<times> ref \<times> heap" where
  "Lines_init els fresh h =
     (case deepcopy_refs els [] fresh h of
        (out, fresh', h') \<Rightarrow>
          (\<lparr>elements = out, heights = [], PCA_coefficients = [], PCA_components = []\<rparr>,
           fresh', h'))"

definition set_initial_elements :: "ref list \<Rightarrow> ref \<Rightarrow> heap \<Rightarrow> Lines \<Rightarrow> Lines \<times> ref \<times> heap" where
  "set_initial_elements ele fresh h c =
     (case deepcopy_refs ele [] fresh h of
        (out, fresh', h') \<Rightarrow> (c\<lparr>elements := out\<rparr>, fresh', h'))"

text \<open>\<^verbatim>\<open>Lines.add_lines\<close> (lines 215-218).\<close>

fun add_lines :: "ref list \<Rightarrow> Lines \<Rightarrow> Lines" where
  "add_lines [] c = c"
| "add_lines (new_line # new_lines) c =
     add_lines new_lines
       (if new_line \<notin> set (elements c) then c\<lparr>elements := elements c @ [new_line]\<rparr> else c)"

text \<open>
  \<^verbatim>\<open>Lines.del_lines\<close> (lines 220-226). \<open>del_while\<close> is the inner \<^verbatim>\<open>while True\<close> loop;
  \<^verbatim>\<open>list.remove\<close> deletes the first occurrence.
\<close>

function del_while :: "ref \<Rightarrow> ref list \<Rightarrow> ref list" where
  "del_while new_line els =
     (if new_line \<in> set els then del_while new_line (remove1 new_line els) else els)"
  by pat_completeness auto
termination
proof (relation "measure (\<lambda>(new_line, els). length els)")
  show "wf (measure (\<lambda>(new_line, els). length els))"
    by simp
next
  fix new_line :: ref and els :: "ref list"
  assume mem: "new_line \<in> set els"
  then have "0 < length els"
    by (rule length_pos_if_in_set)
  then show "((new_line, remove1 new_line els), (new_line, els))
               \<in> measure (\<lambda>(new_line, els). length els)"
    using mem by (simp add: length_remove1)
qed

declare del_while.simps [simp del]

fun del_lines :: "ref list \<Rightarrow> Lines \<Rightarrow> Lines" where
  "del_lines [] c = c"
| "del_lines (new_line # new_lines) c =
     del_lines new_lines (c\<lparr>elements := del_while new_line (elements c)\<rparr>)"

text \<open>
  \<^verbatim>\<open>Lines.slice_data\<close> (lines 228-233): each object in turn gets its slice; an
  exception stops the loop and keeps the objects already written.
\<close>

fun slice_each :: "ref list \<Rightarrow> real list \<Rightarrow> heap \<Rightarrow> (error + unit) \<times> heap" where
  "slice_each [] xrange h = (Inr (), h)"
| "slice_each (e # es) xrange h =
     (case slice_data (h e) xrange of Inl err \<Rightarrow> (Inl err, h)
      | Inr d \<Rightarrow> slice_each es xrange (h(e := (h e)\<lparr>data := d\<rparr>)))"

definition Lines_slice_data :: "real list \<Rightarrow> heap \<Rightarrow> Lines \<Rightarrow> (error + unit) \<times> heap" where
  "Lines_slice_data xrange h c = slice_each (elements c) xrange h"

text \<open>
  \<^verbatim>\<open>Lines.align\<close> (lines 235-250). \<open>align_each\<close> is the first loop (lines 243-247);
  it threads the heap, the two local lists and \<^verbatim>\<open>self.heights\<close>. The second loop
  (lines 249-250) is \<open>slice_each\<close>.
\<close>

fun align_each ::
  "ext \<Rightarrow> ref list \<Rightarrow> heap \<Rightarrow> real list \<Rightarrow> real list \<Rightarrow> real list \<Rightarrow>
   (error + real list \<times> real list) \<times> heap \<times> real list" where
  "align_each ext [] h xmin_list xmax_list hts = (Inr (xmin_list, xmax_list), h, hts)"
| "align_each ext (e # es) h xmin_list xmax_list hts =
     (case Line_align ext (h e) of
        (Inl err, l') \<Rightarrow> (Inl err, h(e := l'), hts)
      | (Inr d, l') \<Rightarrow>
          (case py_min (fst d) of Inl err \<Rightarrow> (Inl err, h(e := l'\<lparr>data := d\<rparr>), hts)
           | Inr mn \<Rightarrow>
          (case py_max (fst d) of Inl err \<Rightarrow> (Inl err, h(e := l'\<lparr>data := d\<rparr>), hts)
           | Inr mx \<Rightarrow>
              align_each ext es (h(e := l'\<lparr>data := d\<rparr>))
                (xmin_list @ [mn]) (xmax_list @ [mx]) (hts @ [height l']))))"

definition Lines_align :: "ext \<Rightarrow> heap \<Rightarrow> Lines \<Rightarrow> (error + unit) \<times> heap \<times> Lines" where
  "Lines_align ext h c =
     (case align_each ext (elements c) h [] [] (heights c) of
        (Inl err, h1, hts) \<Rightarrow> (Inl err, h1, c\<lparr>heights := hts\<rparr>)
      | (Inr (xmin_list, xmax_list), h1, hts) \<Rightarrow>
          (case py_max xmin_list of Inl err \<Rightarrow> (Inl err, h1, c\<lparr>heights := hts\<rparr>)
           | Inr lo \<Rightarrow>
          (case py_min xmax_list of Inl err \<Rightarrow> (Inl err, h1, c\<lparr>heights := hts\<rparr>)
           | Inr hi \<Rightarrow>
          (case slice_each (elements c) [lo, hi] h1 of
             (r, h2) \<Rightarrow> (r, h2, c\<lparr>heights := hts\<rparr>)))))"

text \<open>\<open>k\<close> calls of \<^verbatim>\<open>align\<close> in a row, stopping at the first exception.\<close>

fun align_times :: "ext \<Rightarrow> nat \<Rightarrow> heap \<Rightarrow> Lines \<Rightarrow> (error + unit) \<times> heap \<times> Lines" where
  "align_times ext 0 h c = (Inr (), h, c)"
| "align_times ext (Suc k) h c =
     (case Lines_align ext h c of
        (Inl err, h', c') \<Rightarrow> (Inl err, h', c')
      | (Inr u, h', c') \<Rightarrow> align_times ext k h' c')"

text \<open>
  \<^verbatim>\<open>Lines.subtract\<close> (lines 401-445), with \<^verbatim>\<open>display_sub\<close> left at its default: the
  branch it guards only draws. \<open>subs\<close> is a local that is assigned only when \<open>sub\<close> has
  one entry (\<open>None\<close>: never assigned, reading it raises). The method prints a message
  and returns \<^verbatim>\<open>[]\<close> when the counts differ, and returns \<^verbatim>\<open>None\<close> after the loop.
  \<open>subtract_loop\<close> is the loop body (lines 414-428) over \<^verbatim>\<open>enumerate(self.elements)\<close>.
  The quotients by a peak height are real quotients; at a height of zero numpy yields
  infinities, which the model does not represent, and nothing below depends on them.
\<close>

datatype returned = Returned_None | Returned_empty_list

fun subtract_loop ::
  "ext \<Rightarrow> ref list option \<Rightarrow> real list \<Rightarrow> (nat \<times> ref) list \<Rightarrow> heap \<Rightarrow> (error + unit) \<times> heap" where
  "subtract_loop ext subs display_range [] h = (Inr (), h)"
| "subtract_loop ext subs display_range ((i, e) # rest) h =
     (case subs of None \<Rightarrow> (Inl UnboundLocalError, h)
      | Some ss \<Rightarrow>
        if length ss \<le> i then (Inl IndexError, h)
        else
         (case spline ext (data (h (ss ! i))) of Inl err \<Rightarrow> (Inl err, h)
          | Inr y_sub \<Rightarrow>
         (case find_zlp_max ext (h (ss ! i)) of
            (Inl err, ls) \<Rightarrow> (Inl err, h(ss ! i := ls))
          | (Inr (shift0, height0), ls) \<Rightarrow>
         (case spline ext (data ((h(ss ! i := ls)) e)) of
            Inl err \<Rightarrow> (Inl err, h(ss ! i := ls))
          | Inr y_data \<Rightarrow>
         (case find_zlp_max ext ((h(ss ! i := ls)) e) of
            (Inl err, le) \<Rightarrow> (Inl err, h(ss ! i := ls, e := le))
          | (Inr (shift1, height1), le) \<Rightarrow>
         (case get_linspace display_range 2000 0 of
            Inl err \<Rightarrow> (Inl err, h(ss ! i := ls, e := le))
          | Inr x_data \<Rightarrow>
         (case get_HWHM le of
            Inl err \<Rightarrow> (Inl err, h(ss ! i := ls, e := le))
          | Inr width \<Rightarrow>
              subtract_loop ext subs display_range rest
                (h(ss ! i := ls,
                   e := le\<lparr>data := (x_data,
                                    map2 (-) (map (\<lambda>x. y_data (x + shift1) / height1) x_data)
                                             (map (\<lambda>x. y_sub (x + shift0) / height0) x_data)),
                          name := name le @ '' Subtracted''\<rparr>)))))))))"

definition subtract ::
  "ext \<Rightarrow> ref list \<Rightarrow> real list \<Rightarrow> heap \<Rightarrow> Lines \<Rightarrow> (error + returned) \<times> heap" where
  "subtract ext sub display_range h c =
     (let subs = (if length sub = 1
                  then Some (concat (replicate (length (elements c)) sub)) else None)
      in if length sub \<noteq> length (elements c) then (Inr Returned_empty_list, h)
         else (case subtract_loop ext subs display_range (enumerate 0 (elements c)) h of
                 (Inl err, h') \<Rightarrow> (Inl err, h')
               | (Inr u, h') \<Rightarrow> (Inr Returned_None, h')))"

section \<open>Mapping: curves on a pixel grid\<close>

text \<open>
  \<^verbatim>\<open>Mapping\<close> inherits from \<^verbatim>\<open>Lines\<close>. Its own attributes do not exist before
  \<^verbatim>\<open>set_initial_by_data\<close> has run (\<open>None\<close>). The cube \<open>ydata\<close> is a nested list,
  \<open>ydata ! r ! c\<close> being the curve of cell \<open>(r, c)\<close>; \<open>cube_shape\<close> is its \<^verbatim>\<open>shape\<close>
  when it is a three-dimensional array, that is when it is rectangular.
\<close>

record Mapping = Lines +
  xdata :: "real list option"
  ydata :: "real list list list option"
  pixel_num_x :: "nat option"
  pixel_num_y :: "nat option"
  pixel_num_z :: "nat option"

definition cube_shape :: "real list list list \<Rightarrow> (nat \<times> nat \<times> nat) option" where
  "cube_shape yd =
     (let n = (case yd of [] \<Rightarrow> 0 | row # _ \<Rightarrow> length row);
          k = (case concat yd of [] \<Rightarrow> 0 | cell # _ \<Rightarrow> length cell)
      in if list_all (\<lambda>row. length row = n) yd \<and> list_all (\<lambda>cell. length cell = k) (concat yd)
         then Some (length yd, n, k) else None)"

text \<open>Creating the objects of a list of new \<^verbatim>\<open>Line\<close> values, one fresh reference each.\<close>

fun alloc_lines :: "Line list \<Rightarrow> ref \<Rightarrow> heap \<Rightarrow> ref list \<times> ref \<times> heap" where
  "alloc_lines [] fresh h = ([], fresh, h)"
| "alloc_lines (l # ls) fresh h =
     (case alloc_lines ls (Suc fresh) (h(fresh := l)) of
        (out, fresh', h') \<Rightarrow> (fresh # out, fresh', h'))"

text \<open>
  \<^verbatim>\<open>Mapping.set_initial_by_data\<close> (lines 450-470). \<^verbatim>\<open>np.reshape(ydata, [m * n, -1])\<close>
  puts the cells of the cube one after the other, row by row (\<open>concat\<close>); it raises
  when \<open>m * n = 0\<close>, after the attributes were assigned. When \<open>ydata\<close> is not
  three-dimensional the method prints a message and changes nothing.
\<close>

definition set_initial_by_data ::
  "real list \<Rightarrow> real list list list \<Rightarrow> ref \<Rightarrow> heap \<Rightarrow> Mapping \<Rightarrow>
   (error + unit) \<times> ref \<times> heap \<times> Mapping" where
  "set_initial_by_data xd yd fresh h m =
     (case cube_shape yd of None \<Rightarrow> (Inr (), fresh, h, m)
      | Some (px, py, pz) \<Rightarrow>
          (let m1 = m\<lparr>xdata := Some xd, ydata := Some yd, pixel_num_x := Some px,
                      pixel_num_y := Some py, pixel_num_z := Some pz\<rparr>
           in if px * py = 0 then (Inl ValueError, fresh, h, m1)
              else (case alloc_lines (map (\<lambda>row. Line_init (xd, row) []) (concat yd)) fresh h of
                      (data_list, fresh1, h1) \<Rightarrow>
                   (case deepcopy_refs data_list [] fresh1 h1 of
                      (out, fresh2, h2) \<Rightarrow> (Inr (), fresh2, h2, m1\<lparr>elements := out\<rparr>)))))"

text \<open>\<^verbatim>\<open>Mapping.coord_to_ind\<close> (lines 482-483); \<open>select\<close> is the pair \<open>(row, column)\<close>.\<close>

definition coord_to_ind :: "Mapping \<Rightarrow> int \<times> int \<Rightarrow> error + int" where
  "coord_to_ind m select =
     (case pixel_num_y m of None \<Rightarrow> Inl AttributeError
      | Some n \<Rightarrow> Inr (fst select * int n + snd select))"

text \<open>Indexing a Python list: a negative index counts from the end.\<close>

definition py_nth :: "'a list \<Rightarrow> int \<Rightarrow> error + 'a" where
  "py_nth xs i =
     (let j = (if i < 0 then int (length xs) + i else i)
      in if 0 \<le> j \<and> j < int (length xs) then Inr (xs ! nat j) else Inl IndexError)"

text \<open>
  \<^verbatim>\<open>Mapping.select_sum_all\<close> (lines 475-480): \<open>sum_loop\<close> is the loop adding every
  element's y array to the accumulator, which starts as zeros.
\<close>

fun sum_loop :: "heap \<Rightarrow> ref list \<Rightarrow> real list \<Rightarrow> error + real list" where
  "sum_loop h [] newsp_y = Inr newsp_y"
| "sum_loop h (e # es) newsp_y =
     (case np_add newsp_y (snd (data (h e))) of Inl err \<Rightarrow> Inl err
      | Inr y \<Rightarrow> sum_loop h es y)"

definition select_sum_all :: "heap \<Rightarrow> Mapping \<Rightarrow> error + (real list \<times> real list)" where
  "select_sum_all h m =
     (case elements m of [] \<Rightarrow> Inl IndexError
      | e0 # es \<Rightarrow>
          (case sum_loop h (elements m) (map (\<lambda>y. 0 * y) (snd (data (h e0)))) of
             Inl err \<Rightarrow> Inl err
           | Inr newsp_y \<Rightarrow> Inr (fst (data (h e0)), newsp_y)))"

text \<open>
  \<^verbatim>\<open>Mapping.select_sum_by_list\<close> (lines 485-493): the same accumulation over the
  selected cells, followed by the division by the number of cells (line 492).
\<close>

fun sum_by_list_loop ::
  "heap \<Rightarrow> Mapping \<Rightarrow> (int \<times> int) list \<Rightarrow> real list \<Rightarrow> error + real list" where
  "sum_by_list_loop h m [] newsp_y = Inr newsp_y"
| "sum_by_list_loop h m (s # ss) newsp_y =
     (case coord_to_ind m s of Inl err \<Rightarrow> Inl err | Inr index \<Rightarrow>
     (case py_nth (elements m) index of Inl err \<Rightarrow> Inl err | Inr e \<Rightarrow>
     (case np_add newsp_y (snd (data (h e))) of Inl err \<Rightarrow> Inl err
      | Inr y \<Rightarrow> sum_by_list_loop h m ss y)))"

definition select_sum_by_list ::
  "heap \<Rightarrow> Mapping \<Rightarrow> (int \<times> int) list \<Rightarrow> error + (real list \<times> real list)" where
  "select_sum_by_list h m select_list =
     (case select_list of [] \<Rightarrow> Inl IndexError
      | s0 # ss \<Rightarrow>
     (case coord_to_ind m s0 of Inl err \<Rightarrow> Inl err | Inr index \<Rightarrow>
     (case py_nth (elements m) index of Inl err \<Rightarrow> Inl err | Inr e0 \<Rightarrow>
     (case sum_by_list_loop h m select_list (map (\<lambda>y. 0 * y) (snd (data (h e0)))) of
        Inl err \<Rightarrow> Inl err
      | Inr newsp_y \<Rightarrow>
          Inr (fst (data (h e0)), map (\<lambda>y. y / real (length select_list)) newsp_y)))))"

section \<open>Inputs used by the examples\<close>

text \<open>
  A heap in which every object has the same contents, and a collection holding the
  object at reference 0 only.
\<close>

definition h_dup :: heap where
  "h_dup = (\<lambda>r. Line_init ([0, 1], [2, 3]) ''a'')"

definition c_dup :: Lines where
  "c_dup = \<lparr>elements = [0], heights = [], PCA_coefficients = [], PCA_components = []\<rparr>"

text \<open>A collection of three elements, at references 0, 1 and 2.\<close>

definition c_three :: Lines where
  "c_three = \<lparr>elements = [0, 1, 2], heights = [], PCA_coefficients = [], PCA_components = []\<rparr>"

text \<open>
  An empty \<^verbatim>\<open>Mapping\<close> as its constructor leaves it, an initial heap, an energy axis
  and two cubes: a 2 x 2 x 2 one and a 2 x 2 x 50 one.
\<close>

definition m_init :: Mapping where
  "m_init = \<lparr>elements = [], heights = [], PCA_coefficients = [], PCA_components = [],
             xdata = None, ydata = None, pixel_num_x = None, pixel_num_y = None,
             pixel_num_z = None\<rparr>"

definition h_init :: heap where
  "h_init = (\<lambda>r. Line_init ([], []) [])"

definition xdata0 :: "real list" where "xdata0 = [0, 1]"

definition cube0 :: "real list list list" where
  "cube0 = [[[1, 2], [3, 4]], [[5, 6], [7, 8]]]"

definition cube50 :: "real list list list" where
  "cube50 = [[replicate 50 1, replicate 50 2], [replicate 50 3, replicate 50 4]]"

text \<open>
  A stand-in for the numeric library, used to run the model on inputs. The spline of
  samples that lie on a straight line is that line, here the one through the first two
  samples; the principal-component scores of constant windows are zero; no peak is
  reported.
\<close>

definition ext_line :: ext where
  "ext_line =
     \<lparr>UnivariateSpline = (\<lambda>xs ys.
          if length xs < 4 \<or> length ys \<noteq> length xs then Inl LibraryError
          else Inr (\<lambda>t. ys ! 0 + (t - xs ! 0) * ((ys ! 1 - ys ! 0) / (xs ! 1 - xs ! 0)))),
       PCA_fit_transform = (\<lambda>ncomp m. Inr (\<lambda>i j. 0, \<lambda>i j. 0)),
       find_peaks = (\<lambda>v h d p. Inr ([], []))\<rparr>"

definition cfg_default :: config_find_peak where
  "cfg_default = \<lparr>cfg_height = None, cfg_distance = None, cfg_prominence = None,
                   cfg_display_peaks = None\<rparr>"


definition L_peak :: Line where
  "L_peak = \<lparr>data = ([0, 1, 2, 3, 4], [0, 6, 8, 6, 0]), name = ''peak'', height = 0\<rparr>"

text \<open>
  Two curves on the grid 2, 3, 4, 5, 6, one decreasing and one level, a heap holding
  the decreasing one at reference 0 and the level one everywhere else, and the
  collections of the first one and of the first two objects.
\<close>

definition L_down :: Line where
  "L_down = \<lparr>data = ([2, 3, 4, 5, 6], [4, 3, 2, 1, 0]), name = ''down'', height = 0\<rparr>"

definition L_level :: Line where
  "L_level = \<lparr>data = ([2, 3, 4, 5, 6], [1, 1, 1, 1, 1]), name = ''level'', height = 0\<rparr>"

definition h_two :: heap where
  "h_two = (\<lambda>r. if r = 0 then L_down else L_level)"


definition c_two :: Lines where
  "c_two = \<lparr>elements = [0, 1], heights = [], PCA_coefficients = [], PCA_components = []\<rparr>"

section \<open>The width as the specification words it\<close>

text \<open>
  The specification describes the width used by \<^verbatim>\<open>find_zlp_max\<close> as ``the distance from
  the raw maximum to the last raw sample left of it whose value exceeds half the raw
  maximum''. \<open>spec_single_sided_width\<close> follows these words, not the source: the raw
  maximum is at the first index holding the largest y, and going left from it the
  last sample above half the maximum is the one of least index. It is compared with
  \<open>get_HWHM\<close> below.
\<close>

definition spec_single_sided_width :: "Line \<Rightarrow> error + real" where
  "spec_single_sided_width l =
     (let xs = fst (data l); ys = snd (data l)
      in case py_max ys of Inl e \<Rightarrow> Inl e
         | Inr m \<Rightarrow>
         (case np_argmax ys of Inl e \<Rightarrow> Inl e
          | Inr p \<Rightarrow>
            (let left = filter (\<lambda>i. ys ! i > m / 2) [0..<p]
             in if left = [] then Inl IndexError else Inr \<bar>xs ! p - xs ! hd left\<bar>)))"

text \<open>
  \<^verbatim>\<open>find_zlp_max\<close> as the specification words it: the source's method with
  \<open>spec_single_sided_width\<close> in the place of \<^verbatim>\<open>get_HWHM\<close>, and nothing else changed.
\<close>

definition spec_find_zlp_max :: "ext \<Rightarrow> Line \<Rightarrow> (error + real \<times> real) \<times> Line" where
  "spec_find_zlp_max ext l =
     (case spline ext (data l) of Inl e \<Rightarrow> (Inl e, l) | Inr y_spl \<Rightarrow>
     (case zlp_coarse y_spl l of Inl e \<Rightarrow> (Inl e, l) | Inr test_shift \<Rightarrow>
     (case spec_single_sided_width l of Inl e \<Rightarrow> (Inl e, l) | Inr width \<Rightarrow>
     (case zlp_refine y_spl (zlp_xrange test_shift width) of Inl e \<Rightarrow> (Inl e, l)
      | Inr (shift, h) \<Rightarrow> (Inr (shift, h), l\<lparr>height := h\<rparr>)))))"

text \<open>
  A second stand-in for the numeric library: the interpolating cubic spline of samples
  that lie on a parabola is that parabola, here the one with its vertex at (2, 8), on
  which the samples of \<open>L_peak\<close> lie.
\<close>

definition parabola :: "real \<Rightarrow> real" where
  "parabola t = 8 - 2 * (t - 2)\<^sup>2"

definition ext_parabola :: ext where
  "ext_parabola =
     \<lparr>UnivariateSpline = (\<lambda>xs ys.
          if length xs < 4 \<or> ys \<noteq> map parabola xs then Inl LibraryError else Inr parabola),
       PCA_fit_transform = (\<lambda>ncomp m. Inr (\<lambda>i j. 0, \<lambda>i j. 0)),
       find_peaks = (\<lambda>v h d p. Inr ([], []))\<rparr>"

section \<open>Properties\<close>

subsection \<open>add_lines and del_lines\<close>

lemma filter_remove1_neq: "filter (\<lambda>e. e \<noteq> r) (remove1 r es) = filter (\<lambda>e. e \<noteq> r) es"
  by (induction es) auto

lemma del_while_filter: "del_while r es = filter (\<lambda>e. e \<noteq> r) es"
proof (induction r es rule: del_while.induct)
  case (1 new_line els)
  show ?case
  proof (cases "new_line \<in> set els")
    case True
    then have "del_while new_line els = del_while new_line (remove1 new_line els)"
      by (simp add: del_while.simps [of new_line els])
    also have "\<dots> = filter (\<lambda>e. e \<noteq> new_line) (remove1 new_line els)"
      using "1.IH" True by simp
    finally show ?thesis
      by (simp add: filter_remove1_neq)
  next
    case False
    then have "del_while new_line els = els"
      by (simp add: del_while.simps [of new_line els])
    moreover have "filter (\<lambda>e. e \<noteq> new_line) els = els"
      using False by (induction els) auto
    ultimately show ?thesis by simp
  qed
qed

text \<open>
  C4, as the code has it. Membership is identity of objects: \<^verbatim>\<open>add_lines\<close> with an
  object that is itself in \<open>elements\<close> changes nothing and with any other object
  appends it; \<^verbatim>\<open>del_lines\<close> removes every occurrence of that very object and keeps
  the others in their order.
\<close>

theorem add_del_lines_identity:
  "elements (add_lines [new_line] c) =
     (if new_line \<in> set (elements c) then elements c else elements c @ [new_line])
   \<and> elements (del_lines [new_line] c) = filter (\<lambda>e. e \<noteq> new_line) (elements c)"
  by (simp add: del_while_filter)

theorem add_del_lines_identity_witness:
  "elements (add_lines [0] c_dup) = [0] \<and> elements (del_lines [0] c_dup) = []"
  using add_del_lines_identity [of 0 c_dup] by (simp add: c_dup_def)

text \<open>
  C4 as stated fails: the object at reference 1 has the contents of the stored object
  at reference 0, yet \<^verbatim>\<open>add_lines\<close> appends it, and \<^verbatim>\<open>del_lines\<close> with it removes only
  itself and never the stored object of equal contents.
\<close>

theorem add_lines_value_equal_counterexample:
  "data (h_dup 1) = data (h_dup 0) \<and> name (h_dup 1) = name (h_dup 0)
   \<and> 0 \<in> set (elements c_dup)
   \<and> elements (add_lines [1] c_dup) = [0, 1]
   \<and> elements (del_lines [1] (add_lines [1] c_dup)) = [0]
   \<and> elements (del_lines [1] c_dup) = [0]"
  by (simp add: h_dup_def c_dup_def del_while_filter)

subsection \<open>Objects created by copying\<close>

lemma alloc_lines_spec:
  "alloc_lines ls fresh h = (out, fresh', h') \<Longrightarrow>
     out = [fresh..<fresh + length ls] \<and> fresh' = fresh + length ls
     \<and> (\<forall>i<length ls. h' (fresh + i) = ls ! i) \<and> (\<forall>r<fresh. h' r = h r)"
proof (induction ls arbitrary: fresh h out fresh' h')
  case Nil
  then show ?case by simp
next
  case (Cons l ls)
  obtain out1 f1 h1 where rec: "alloc_lines ls (Suc fresh) (h(fresh := l)) = (out1, f1, h1)"
    by (cases "alloc_lines ls (Suc fresh) (h(fresh := l))") auto
  from Cons.prems rec have res: "out = fresh # out1" "fresh' = f1" "h' = h1"
    by simp_all
  from Cons.IH [OF rec] have ih:
    "out1 = [Suc fresh..<Suc fresh + length ls]" "f1 = Suc fresh + length ls"
    "\<forall>i<length ls. h1 (Suc fresh + i) = ls ! i" "\<forall>r<Suc fresh. h1 r = (h(fresh := l)) r"
    by simp_all
  have a: "out = [fresh..<fresh + length (l # ls)]"
    using res ih by (simp add: upt_rec)
  have b: "fresh' = fresh + length (l # ls)"
    using res ih by simp
  have c: "\<forall>i<length (l # ls). h' (fresh + i) = (l # ls) ! i"
  proof (intro allI impI)
    fix i assume "i < length (l # ls)"
    then show "h' (fresh + i) = (l # ls) ! i"
      using ih res by (cases i) auto
  qed
  have d: "\<forall>r<fresh. h' r = h r"
    using ih res by auto
  from a b c d show ?case by blast
qed

lemma deepcopy_refs_spec:
  "deepcopy_refs rs memo fresh h = (out, fresh', h') \<Longrightarrow>
   (\<forall>a b. map_of memo a = Some b \<longrightarrow> a < fresh \<and> b < fresh \<and> h b = h a) \<Longrightarrow>
   (\<forall>r\<in>set rs. r < fresh) \<Longrightarrow>
     length out = length rs \<and> (\<forall>i<length rs. h' (out ! i) = h (rs ! i))
     \<and> (\<forall>r<fresh. h' r = h r)"
proof (induction rs arbitrary: memo fresh h out fresh' h')
  case Nil
  then show ?case by simp
next
  case (Cons r rs)
  show ?case
  proof (cases "map_of memo r")
    case (Some r')
    obtain out1 f1 h1 where rec: "deepcopy_refs rs memo fresh h = (out1, f1, h1)"
      by (cases "deepcopy_refs rs memo fresh h") auto
    from Cons.prems(1) Some rec have res: "out = r' # out1" "h' = h1"
      by simp_all
    have ih: "length out1 = length rs" "\<forall>i<length rs. h1 (out1 ! i) = h (rs ! i)"
      "\<forall>r<fresh. h1 r = h r"
      using Cons.IH [OF rec Cons.prems(2)] Cons.prems(3) by simp_all
    have r': "r' < fresh" "h r' = h r"
      using Cons.prems(2) Some by blast+
    have "\<forall>i<length (r # rs). h' (out ! i) = h ((r # rs) ! i)"
    proof (intro allI impI)
      fix i assume "i < length (r # rs)"
      then show "h' (out ! i) = h ((r # rs) ! i)"
        using ih res r' by (cases i) auto
    qed
    then show ?thesis using ih res by simp
  next
    case None
    let ?h = "h(fresh := h r)"
    let ?memo = "(r, fresh) # memo"
    obtain out1 f1 h1 where rec: "deepcopy_refs rs ?memo (Suc fresh) ?h = (out1, f1, h1)"
      by (cases "deepcopy_refs rs ?memo (Suc fresh) ?h") auto
    from Cons.prems(1) None rec have res: "out = fresh # out1" "h' = h1"
      by simp_all
    have rlt: "r < fresh" using Cons.prems(3) by simp
    have inv: "\<forall>a b. map_of ?memo a = Some b \<longrightarrow> a < Suc fresh \<and> b < Suc fresh \<and> ?h b = ?h a"
    proof (intro allI impI)
      fix a b assume m: "map_of ?memo a = Some b"
      show "a < Suc fresh \<and> b < Suc fresh \<and> ?h b = ?h a"
      proof (cases "a = r")
        case True
        then have "b = fresh" using m by simp
        then show ?thesis using True rlt by simp
      next
        case False
        then have "map_of memo a = Some b" using m by simp
        then have "a < fresh \<and> b < fresh \<and> h b = h a" using Cons.prems(2) by blast
        then show ?thesis by simp
      qed
    qed
    have lt: "\<forall>x\<in>set rs. x < Suc fresh" using Cons.prems(3) by auto
    have ih: "length out1 = length rs" "\<forall>i<length rs. h1 (out1 ! i) = ?h (rs ! i)"
      "\<forall>x<Suc fresh. h1 x = ?h x"
      using Cons.IH [OF rec inv lt] by simp_all
    have "\<forall>i<length (r # rs). h' (out ! i) = h ((r # rs) ! i)"
    proof (intro allI impI)
      fix i assume i: "i < length (r # rs)"
      show "h' (out ! i) = h ((r # rs) ! i)"
      proof (cases i)
        case 0
        then show ?thesis using ih(3) res by simp
      next
        case (Suc j)
        then have j: "j < length rs" using i by simp
        then have "rs ! j < fresh" using Cons.prems(3) by simp
        then show ?thesis using ih(2) j res Suc by simp
      qed
    qed
    moreover have "\<forall>x<fresh. h' x = h x"
      using ih(3) res by simp
    ultimately show ?thesis using ih res by simp
  qed
qed

subsection \<open>The pixel grid\<close>

lemma nth_concat_rect:
  "\<forall>row\<in>set yd. length row = cols \<Longrightarrow> r < length yd \<Longrightarrow> c < cols \<Longrightarrow>
     concat yd ! (r * cols + c) = yd ! r ! c"
proof (induction yd arbitrary: r)
  case Nil
  then show ?case by simp
next
  case (Cons row yd)
  show ?case
  proof (cases r)
    case 0
    then show ?thesis using Cons.prems by (simp add: nth_append)
  next
    case (Suc r')
    then have "concat (row # yd) ! (r * cols + c) = concat yd ! (r' * cols + c)"
      using Cons.prems by (simp add: nth_append)
    then show ?thesis using Cons.IH [of r'] Cons.prems Suc by simp
  qed
qed

lemma length_concat_rect:
  "\<forall>row\<in>set yd. length row = cols \<Longrightarrow> length (concat yd) = length yd * cols"
  by (induction yd) auto

lemma cube_shape_SomeD:
  assumes "cube_shape yd = Some (rows, cols, k)"
  shows "rows = length yd" and "\<forall>row\<in>set yd. length row = cols"
proof -
  let ?n = "case yd of [] \<Rightarrow> 0 | row # _ \<Rightarrow> length row"
  from assms have c: "list_all (\<lambda>row. length row = ?n) yd" and e: "rows = length yd" "cols = ?n"
    by (auto simp: cube_shape_def Let_def split: if_splits)
  show "rows = length yd" by (rule e)
  show "\<forall>row\<in>set yd. length row = cols"
    using c e by (simp add: list_all_iff)
qed

lemma flat_index_less:
  fixes r c rows cols :: nat
  assumes "r < rows" "c < cols"
  shows "r * cols + c < rows * cols"
proof -
  have "r * cols + c < r * cols + cols" using assms by simp
  also have "\<dots> = Suc r * cols" by simp
  also have "\<dots> \<le> rows * cols" using assms by (intro mult_le_mono1) simp
  finally show ?thesis .
qed

text \<open>
  C8. For a cube of shape rows x cols x k and a cell \<open>(r, c)\<close> inside it,
  \<^verbatim>\<open>set_initial_by_data\<close> returns normally, \<^verbatim>\<open>coord_to_ind((r, c))\<close> is \<open>r * cols + c\<close>,
  there are rows * cols elements, and the element at that index holds the x axis and
  the curve of cell \<open>(r, c)\<close>.
\<close>

theorem coord_to_ind_row_major:
  assumes shape: "cube_shape yd = Some (rows, cols, k)" and r: "r < rows" and c: "c < cols"
  shows "\<exists>fresh' h' m'.
           set_initial_by_data xd yd fresh h m = (Inr (), fresh', h', m')
           \<and> coord_to_ind m' (int r, int c) = Inr (int (r * cols + c))
           \<and> length (elements m') = rows * cols
           \<and> data (h' (elements m' ! (r * cols + c))) = (xd, yd ! r ! c)"
proof -
  let ?ls = "map (\<lambda>row. Line_init (xd, row) []) (concat yd)"
  let ?i = "r * cols + c"
  have rows: "rows = length yd" and rect: "\<forall>row\<in>set yd. length row = cols"
    using cube_shape_SomeD [OF shape] by simp_all
  have len: "length ?ls = rows * cols"
    using length_concat_rect [OF rect] rows by simp
  have i: "?i < rows * cols"
    using flat_index_less [OF r c] .
  have nz: "rows * cols \<noteq> 0" using r c by simp
  obtain dl f1 h1 where al: "alloc_lines ?ls fresh h = (dl, f1, h1)"
    by (cases "alloc_lines ?ls fresh h") auto
  obtain out f2 h2 where dc: "deepcopy_refs dl [] f1 h1 = (out, f2, h2)"
    by (cases "deepcopy_refs dl [] f1 h1") auto
  have dl: "dl = [fresh..<fresh + length ?ls]" and f1: "f1 = fresh + length ?ls"
    and h1: "\<forall>j<length ?ls. h1 (fresh + j) = ?ls ! j"
    using alloc_lines_spec [OF al] by simp_all
  have below: "\<forall>x\<in>set dl. x < f1" using dl f1 by simp
  have cp: "length out = length dl" "\<forall>j<length dl. h2 (out ! j) = h1 (dl ! j)"
    using deepcopy_refs_spec [OF dc _ below] by simp_all
  have ldl: "length dl = rows * cols" using dl len by simp
  let ?m' = "m\<lparr>xdata := Some xd, ydata := Some yd, pixel_num_x := Some rows,
                pixel_num_y := Some cols, pixel_num_z := Some k, elements := out\<rparr>"
  have run: "set_initial_by_data xd yd fresh h m = (Inr (), f2, h2, ?m')"
    using shape nz al dc by (simp add: set_initial_by_data_def)
  have ind: "coord_to_ind ?m' (int r, int c) = Inr (int ?i)"
    by (simp add: coord_to_ind_def)
  have "h2 (out ! ?i) = h1 (dl ! ?i)" using cp(2) i ldl by simp
  also have "dl ! ?i = fresh + ?i" using dl i len by simp
  also have "h1 (fresh + ?i) = ?ls ! ?i" using h1 i len by simp
  also have "\<dots> = Line_init (xd, concat yd ! ?i) []"
    using i len by simp
  finally have "data (h2 (out ! ?i)) = (xd, concat yd ! ?i)"
    by (simp add: Line_init_def)
  then have cell: "data (h2 (elements ?m' ! ?i)) = (xd, yd ! r ! c)"
    using nth_concat_rect [OF rect _ c, of r] r rows by simp
  have "length (elements ?m') = rows * cols" using cp(1) ldl by simp
  with run ind cell show ?thesis by blast
qed

lemma cube50_shape: "cube_shape cube50 = Some (2, 2, 50)"
  by (simp add: cube_shape_def cube50_def)

text \<open>The 2 x 2 x 50 cube: cell (1, 1) is at index 3.\<close>

theorem coord_to_ind_row_major_witness:
  "\<exists>fresh' h' m'.
     set_initial_by_data xdata0 cube50 0 h_init m_init = (Inr (), fresh', h', m')
     \<and> coord_to_ind m' (1, 1) = Inr 3
     \<and> length (elements m') = 4
     \<and> data (h' (elements m' ! 3)) = (xdata0, replicate 50 4)"
proof -
  have r: "(1::nat) < 2" by simp
  show ?thesis
    using coord_to_ind_row_major [OF cube50_shape r r, of xdata0 0 h_init m_init]
    by (simp add: cube50_def)
qed

text \<open>
  C2. On the map built from the 2 x 2 x 2 cube, \<^verbatim>\<open>select_sum_all\<close> returns the sum
  of the four curves, [16, 20], where the mean is [4, 5]; \<^verbatim>\<open>select_sum_by_list\<close> over
  the same four cells divides by their number and returns the mean.
\<close>

theorem select_sum_all_is_sum:
  "(case set_initial_by_data xdata0 cube0 0 h_init m_init of
      (r, fresh, h, m) \<Rightarrow>
        r = Inr ()
        \<and> select_sum_all h m = Inr ([0, 1], [16, 20])
        \<and> select_sum_by_list h m [(0, 0), (0, 1), (1, 0), (1, 1)] = Inr ([0, 1], [4, 5]))"
  by (simp add: set_initial_by_data_def cube_shape_def cube0_def xdata0_def m_init_def h_init_def
      select_sum_all_def select_sum_by_list_def coord_to_ind_def py_nth_def np_add_def Line_init_def)

subsection \<open>subtract\<close>

text \<open>
  C1. With one substrate and three elements the count test of line 410 fails, so the
  method prints its message and returns \<^verbatim>\<open>[]\<close> without touching any element: the
  broadcast list built on line 409 is never used. With three substrates for three
  elements the local \<^verbatim>\<open>subs\<close> was never assigned and the first iteration raises.
\<close>

theorem subtract_broadcast_rejected:
  "subtract ext [3] display_range h c_three = (Inr Returned_empty_list, h)
   \<and> subtract ext [3, 4, 5] display_range h c_three = (Inl UnboundLocalError, h)"
  by (simp add: subtract_def c_three_def enumerate_eq_zip upt_rec)

subsection \<open>Slices\<close>

lemma map_nth_filter:
  "map (nth xs) (filter (\<lambda>i. P (xs ! i)) [0..<length xs]) = filter P xs"
proof -
  have "filter P xs = filter P (map (nth xs) [0..<length xs])"
    by (simp add: map_nth)
  also have "\<dots> = map (nth xs) (filter (P \<circ> nth xs) [0..<length xs])"
    by (rule filter_map)
  finally show ?thesis by (simp add: comp_def)
qed

lemma py_min_Min: "xs \<noteq> [] \<Longrightarrow> py_min xs = Inr (Min (set xs))"
proof (cases xs)
  case Nil
  assume "xs \<noteq> []"
  with Nil show ?thesis by simp
next
  case (Cons a as)
  show ?thesis unfolding Cons py_min.simps Min.set_eq_fold ..
qed

lemma py_max_Max: "xs \<noteq> [] \<Longrightarrow> py_max xs = Inr (Max (set xs))"
proof (cases xs)
  case Nil
  assume "xs \<noteq> []"
  with Nil show ?thesis by simp
next
  case (Cons a as)
  show ?thesis unfolding Cons py_max.simps Max.set_eq_fold ..
qed

lemma slice_data_filter:
  assumes "xrange \<noteq> []" and "length (fst (data l)) \<le> length (snd (data l))"
  shows "\<exists>ys. slice_data l xrange =
           Inr (filter (\<lambda>x. Min (set xrange) \<le> x \<and> x \<le> Max (set xrange)) (fst (data l)), ys)
         \<and> length ys = length (filter (\<lambda>x. Min (set xrange) \<le> x \<and> x \<le> Max (set xrange)) (fst (data l)))"
proof -
  let ?xs = "fst (data l)"
  let ?P = "\<lambda>x. Min (set xrange) \<le> x \<and> x \<le> Max (set xrange)"
  let ?sel = "filter (\<lambda>i. ?P (?xs ! i)) [0..<length ?xs]"
  have inb: "list_all (\<lambda>i. i < length (snd (data l))) ?sel"
    using assms(2) by (auto simp: list_all_iff)
  let ?ys = "map (nth (snd (data l))) ?sel"
  have r: "slice_data l xrange = Inr (map (nth ?xs) ?sel, ?ys)"
    using inb by (simp add: slice_data_def py_min_Min [OF assms(1)] py_max_Max [OF assms(1)] Let_def)
  have e: "map (nth ?xs) ?sel = filter ?P ?xs"
    by (rule map_nth_filter)
  have r': "slice_data l xrange = Inr (filter ?P ?xs, ?ys)"
    using r unfolding e .
  have "length ?ys = length (map (nth ?xs) ?sel)"
    by simp
  also have "\<dots> = length (filter ?P ?xs)"
    using e by (rule arg_cong)
  finally have len: "length ?ys = length (filter ?P ?xs)" .
  show ?thesis
    by (rule exI [of _ ?ys]) (rule conjI [OF r' len])
qed

lemma zip_nth_upt:
  assumes "length xs = length ys"
  shows "zip xs ys = map (\<lambda>i. (xs ! i, ys ! i)) [0..<length xs]"
proof -
  have "map (nth ys) [0..<length xs] = ys"
    unfolding assms by (rule map_nth)
  then have "zip xs ys = zip (map (nth xs) [0..<length xs]) (map (nth ys) [0..<length xs])"
    by (simp only: map_nth)
  also have "\<dots> = map (\<lambda>i. (xs ! i, ys ! i)) [0..<length xs]"
    by (simp add: zip_map_map zip_same_conv_map)
  finally show ?thesis .
qed

lemma slice_data_zip:
  assumes len: "length (fst (data l)) = length (snd (data l))" and xr: "xrange \<noteq> []"
  shows "slice_data l xrange =
           Inr (filter (\<lambda>x. Min (set xrange) \<le> x \<and> x \<le> Max (set xrange)) (fst (data l)),
                map snd (filter (\<lambda>p. Min (set xrange) \<le> fst p \<and> fst p \<le> Max (set xrange))
                           (zip (fst (data l)) (snd (data l)))))"
proof -
  let ?xs = "fst (data l)" and ?ys = "snd (data l)"
  let ?P = "\<lambda>x. Min (set xrange) \<le> x \<and> x \<le> Max (set xrange)"
  let ?sel = "filter (\<lambda>i. ?P (?xs ! i)) [0..<length ?xs]"
  have inb: "list_all (\<lambda>i. i < length ?ys) ?sel"
    using len by (simp add: list_all_iff)
  have r: "slice_data l xrange = Inr (map (nth ?xs) ?sel, map (nth ?ys) ?sel)"
    using inb by (simp add: slice_data_def py_min_Min [OF xr] py_max_Max [OF xr] Let_def)
  have e: "map (nth ?xs) ?sel = filter ?P ?xs"
    by (rule map_nth_filter)
  have "filter (\<lambda>p. ?P (fst p)) (zip ?xs ?ys)
          = map (\<lambda>i. (?xs ! i, ?ys ! i)) (filter ((\<lambda>p. ?P (fst p)) \<circ> (\<lambda>i. (?xs ! i, ?ys ! i))) [0..<length ?xs])"
    unfolding zip_nth_upt [OF len] by (rule filter_map)
  also have "\<dots> = map (\<lambda>i. (?xs ! i, ?ys ! i)) ?sel"
    by (simp add: comp_def)
  finally have "map snd (filter (\<lambda>p. ?P (fst p)) (zip ?xs ?ys)) = map (nth ?ys) ?sel"
    by (simp add: comp_def)
  then show ?thesis
    using r unfolding e by simp
qed

text \<open>
  When the slice cannot be taken (an empty \<open>xrange\<close>, or a y array too short), the
  first statement of \<^verbatim>\<open>find_peak\<close> raises and the object is as it was.
\<close>

lemma slice_data_empty_range: "slice_data l [] = Inl UnboundLocalError"
  by (simp add: slice_data_def)

lemma find_peak_slice_raises:
  "slice_data l xrange = Inl e \<Longrightarrow> find_peak ext xrange cfg l = (Inl e, l)"
  by (simp add: find_peak_def)

text \<open>
  C9. \<^verbatim>\<open>find_peak\<close> is not a query: whatever the peak detection then does (return or
  raise), the object afterwards holds the slice of its data to \<open>xrange\<close>, and its x
  array is made of the original samples lying in [min(xrange), max(xrange)], in their
  order. The name and the height are as before.
\<close>

theorem find_peak_replaces_data:
  assumes "xrange \<noteq> []" and "length (fst (data l)) \<le> length (snd (data l))"
  shows "slice_data l xrange = Inr (data (snd (find_peak ext xrange cfg l)))
       \<and> fst (data (snd (find_peak ext xrange cfg l))) =
           filter (\<lambda>x. Min (set xrange) \<le> x \<and> x \<le> Max (set xrange)) (fst (data l))
       \<and> name (snd (find_peak ext xrange cfg l)) = name l
       \<and> height (snd (find_peak ext xrange cfg l)) = height l"
proof -
  from assms obtain ys where
    "slice_data l xrange =
       Inr (filter (\<lambda>x. Min (set xrange) \<le> x \<and> x \<le> Max (set xrange)) (fst (data l)), ys)"
    using slice_data_filter [of xrange l] by auto
  then show ?thesis by (simp add: find_peak_def)
qed

text \<open>
  The curve sampled at 0, 1, 2, 3, 4 keeps the samples at 1, 2, 3 for the range [1, 3].
\<close>

theorem find_peak_replaces_data_witness:
  "data L_peak = ([0, 1, 2, 3, 4], [0, 6, 8, 6, 0])
   \<and> slice_data L_peak [1, 3] = Inr (data (snd (find_peak ext_line [1, 3] cfg_default L_peak)))
   \<and> data (snd (find_peak ext_line [1, 3] cfg_default L_peak)) = ([1, 2, 3], [6, 8, 6])"
proof -
  have a: "[1, 3 :: real] \<noteq> []" by simp
  have b: "length (fst (data L_peak)) \<le> length (snd (data L_peak))" by (simp add: L_peak_def)
  have c: "slice_data L_peak [1, 3] = Inr ([1, 2, 3], [6, 8, 6])"
    by (simp add: slice_data_zip L_peak_def)
  show ?thesis
    using find_peak_replaces_data [OF a b, of ext_line cfg_default] c
    by (simp add: L_peak_def)
qed

subsection \<open>denoise_LLR\<close>





subsection \<open>Locating the peak of a decreasing curve\<close>

lemma fold_max_head: "\<forall>v\<in>set vs. v \<le> v0 \<Longrightarrow> fold max vs (v0::real) = v0"
  by (induction vs) (simp_all add: max_absorb2)

lemma np_argmax_head: "\<forall>v\<in>set vs. v \<le> v0 \<Longrightarrow> np_argmax (v0 # vs) = Inr 0"
  by (simp add: fold_max_head)

lemma py_max_head: "\<forall>v\<in>set vs. v \<le> v0 \<Longrightarrow> py_max (v0 # vs) = Inr v0"
  by (simp add: fold_max_head)

lemma np_linspace_head:
  assumes "0 < num"
  shows "\<exists>rest. np_linspace a b num = a # rest \<and> (a \<le> b \<longrightarrow> (\<forall>t\<in>set rest. a \<le> t))"
proof -
  let ?g = "\<lambda>i. a + real i * ((b - a) / real (num - 1))"
  have "[0..<num] = 0 # [1..<num]"
    using assms by (simp add: upt_conv_Cons)
  then have e: "np_linspace a b num = a # map ?g [1..<num]"
    by (simp add: np_linspace_def)
  have "a \<le> b \<longrightarrow> (\<forall>t\<in>set (map ?g [1..<num]). a \<le> t)"
  proof (intro impI ballI)
    fix t assume ab: "a \<le> b" and mem: "t \<in> set (map ?g [1..<num])"
    from mem obtain i where t: "t = ?g i" unfolding set_map by blast
    have "0 \<le> real i * ((b - a) / real (num - 1))"
      using ab by (intro mult_nonneg_nonneg divide_nonneg_nonneg) simp_all
    then show "a \<le> t" using t by simp
  qed
  with e show ?thesis by blast
qed

lemma py_min_pair: "a \<le> b \<Longrightarrow> py_min [a, b] = Inr a"
  by (simp add: min_def)

lemma py_max_pair: "a \<le> b \<Longrightarrow> py_max [a, b] = Inr b"
  by (simp add: max_def)

lemma zlp_refine_antitone:
  assumes ab: "a \<le> b" and anti: "\<forall>t. a \<le> t \<longrightarrow> f t \<le> f a"
  shows "zlp_refine f [a, b] = Inr (a, f a)"
proof -
  have n: "(0::nat) < 2000" by simp
  obtain rest where g: "np_linspace a b 2000 = a # rest" and ge: "\<forall>t\<in>set rest. a \<le> t"
    using np_linspace_head [OF n, of a b] ab by blast
  have gl: "get_linspace [a, b] 2000 0 = Inr (a # rest)"
    unfolding get_linspace_def py_min_pair [OF ab] py_max_pair [OF ab] using g by simp
  have le: "\<forall>v\<in>set (map f rest). v \<le> f a"
    using ge anti by auto
  show ?thesis
    unfolding zlp_refine_def gl
    by (simp only: sum.case list.map np_argmax_head [OF le] py_max_head [OF le] nth_Cons_0)
qed

lemma zlp_coarse_antitone:
  assumes ne: "fst (data l) \<noteq> []"
    and anti: "\<forall>t. Min (set (fst (data l))) \<le> t \<longrightarrow> f t \<le> f (Min (set (fst (data l))))"
  shows "zlp_coarse f l = Inr (Min (set (fst (data l))))"
proof -
  let ?lo = "Min (set (fst (data l)))" and ?hi = "Max (set (fst (data l)))"
  have n: "(0::nat) < 2000" by simp
  have ab: "?lo \<le> ?hi"
    using ne by (simp add: Min_le_iff)
  obtain rest where g: "np_linspace ?lo ?hi 2000 = ?lo # rest" and ge: "\<forall>t\<in>set rest. ?lo \<le> t"
    using np_linspace_head [OF n, of ?lo ?hi] ab by blast
  have gl: "get_linspace [?lo, ?hi] 2000 0 = Inr (?lo # rest)"
    unfolding get_linspace_def py_min_pair [OF ab] py_max_pair [OF ab] using g by simp
  have le: "\<forall>v\<in>set (map f rest). v \<le> f ?lo"
    using ge anti by auto
  show ?thesis
    unfolding zlp_coarse_def py_min_Min [OF ne] py_max_Max [OF ne] sum.case gl
    by (simp only: sum.case list.map np_argmax_head [OF le] nth_Cons_0)
qed

lemma get_HWHM_nonneg: "get_HWHM l = Inr w \<Longrightarrow> 0 \<le> w"
  by (auto simp: get_HWHM_def Let_def split: sum.splits if_splits)

lemma find_zlp_max_antitone:
  assumes sp: "spline ext (data l) = Inr f" and anti: "\<forall>s t. s \<le> t \<longrightarrow> f t \<le> f s"
    and ne: "fst (data l) \<noteq> []" and w: "get_HWHM l = Inr w"
  shows "find_zlp_max ext l =
           (Inr (Min (set (fst (data l))) - w / 2 * 3, f (Min (set (fst (data l))) - w / 2 * 3)),
            l\<lparr>height := f (Min (set (fst (data l))) - w / 2 * 3)\<rparr>)"
proof -
  let ?lo = "Min (set (fst (data l)))"
  have c: "zlp_coarse f l = Inr ?lo"
    using ne anti by (intro zlp_coarse_antitone) simp_all
  have w0: "0 \<le> w" using w by (rule get_HWHM_nonneg)
  have ab: "?lo - w / 2 * 3 \<le> ?lo + w / 2 * 3" using w0 by simp
  have r: "zlp_refine f (zlp_xrange ?lo w) = Inr (?lo - w / 2 * 3, f (?lo - w / 2 * 3))"
    unfolding zlp_xrange_def num_sigma_def
    using ab anti by (intro zlp_refine_antitone) simp_all
  show ?thesis
    unfolding find_zlp_max_def sp sum.case c w r prod.case ..
qed

subsection \<open>subtract and the substrate\<close>

lemma find_zlp_max_object:
  "find_zlp_max ext l = (r, l') \<Longrightarrow>
     (case r of Inl e \<Rightarrow> l' = l | Inr (shift, hgt) \<Rightarrow> l' = l\<lparr>height := hgt\<rparr>)"
  by (auto simp: find_zlp_max_def split: sum.splits prod.splits)



lemma fz_down:
  "find_zlp_max ext_line L_down = (Inr (1/2, 11/2), L_down\<lparr>height := 11/2\<rparr>)"
proof -
  have sp: "spline ext_line (data L_down) = Inr (\<lambda>t. 6 - t)"
    by (simp add: spline_def ext_line_def L_down_def fun_eq_iff)
  have anti: "\<forall>s t::real. s \<le> t \<longrightarrow> 6 - t \<le> 6 - s" by simp
  have ne: "fst (data L_down) \<noteq> []" by (simp add: L_down_def)
  have w: "get_HWHM L_down = Inr 1"
    by (simp add: get_HWHM_def L_down_def upt_rec)
  have m: "Min (set (fst (data L_down))) = 2" by (simp add: L_down_def)
  show ?thesis
    using find_zlp_max_antitone [OF sp anti ne w] unfolding m by simp
qed

text \<open>
  When \<^verbatim>\<open>subtract\<close> with one substrate does subtract (it returns \<^verbatim>\<open>None\<close>, which needs
  exactly one element), the substrate keeps its data and its name, and its height is
  the one line 417 makes \<^verbatim>\<open>find_zlp_max\<close> store in it.
\<close>

lemma subtract_loop_substrate:
  assumes run: "subtract ext [s] display_range h c = (Inr Returned_None, h')"
    and ns: "s \<notin> set (elements c)"
  shows "length (elements c) = 1
       \<and> data (h' s) = data (h s) \<and> name (h' s) = name (h s)
       \<and> (\<exists>shift. fst (find_zlp_max ext (h s)) = Inr (shift, height (h' s)))"
proof -
  have len: "length (elements c) = 1"
    using run by (auto simp: subtract_def split: if_splits)
  then obtain e where el: "elements c = [e]"
    by (cases "elements c") auto
  have es: "e \<noteq> s" using ns el by auto
  have loop: "subtract_loop ext (Some [s]) display_range [(0, e)] h = (Inr (), h')"
    using run el by (auto simp: subtract_def enumerate_eq_zip split: sum.splits prod.splits)
  obtain r0 ls where f0: "find_zlp_max ext (h s) = (r0, ls)"
    by (cases "find_zlp_max ext (h s)") auto
  obtain r1 le where f1: "find_zlp_max ext (h e) = (r1, le)"
    by (cases "find_zlp_max ext (h e)") auto
  from loop f0 f1 es obtain shift0 height0 where
    r0: "r0 = Inr (shift0, height0)" and h': "h' s = ls"
    by (auto simp: split: sum.splits prod.splits if_splits)
  have ls: "ls = (h s)\<lparr>height := height0\<rparr>"
    using find_zlp_max_object [OF f0] r0 by simp
  have "fst (find_zlp_max ext (h s)) = Inr (shift0, height (h' s))"
    using f0 r0 h' ls by simp
  then show ?thesis
    using len h' ls by auto
qed



lemma hw_down: "get_HWHM L_down = Inr 1"
  by (simp add: get_HWHM_def L_down_def upt_rec)



subsection \<open>Line.align\<close>

lemma slice_data_map:
  assumes xr: "xrange \<noteq> []" and d: "data l = (xs, map g xs)"
  shows "slice_data l xrange =
           Inr (filter (\<lambda>x. Min (set xrange) \<le> x \<and> x \<le> Max (set xrange)) xs,
                map g (filter (\<lambda>x. Min (set xrange) \<le> x \<and> x \<le> Max (set xrange)) xs))"
proof -
  let ?P = "\<lambda>x. Min (set xrange) \<le> x \<and> x \<le> Max (set xrange)"
  let ?sel = "filter (\<lambda>i. ?P (xs ! i)) [0..<length xs]"
  have inb: "list_all (\<lambda>i. i < length (map g xs)) ?sel"
    by (simp add: list_all_iff)
  have r: "slice_data l xrange = Inr (map (nth xs) ?sel, map (nth (map g xs)) ?sel)"
    using inb by (simp add: slice_data_def d py_min_Min [OF xr] py_max_Max [OF xr] Let_def)
  have e: "map (nth xs) ?sel = filter ?P xs"
    by (rule map_nth_filter)
  have "map (nth (map g xs)) ?sel = map (\<lambda>i. g (xs ! i)) ?sel"
    by (rule map_cong) simp_all
  also have "\<dots> = map g (map (nth xs) ?sel)"
    by (simp add: comp_def)
  finally have e2: "map (nth (map g xs)) ?sel = map g (filter ?P xs)"
    unfolding e .
  show ?thesis
    using r unfolding e e2 .
qed

lemma Line_align_antitone:
  assumes sp: "spline ext (data l) = Inr f" and anti: "\<forall>s t. s \<le> t \<longrightarrow> f t \<le> f s"
    and ne: "fst (data l) \<noteq> []" and w: "get_HWHM l = Inr w"
    and lo: "Min (set (fst (data l))) = lo" and hi: "Max (set (fst (data l))) = hi"
    and keep: "filter (\<lambda>x. min lo (hi - (lo - w / 2 * 3)) \<le> x \<and> x \<le> max lo (hi - (lo - w / 2 * 3)))
                 (fst (data l)) = keep"
  shows "Line_align ext l =
           (Inr (keep, map (\<lambda>x. f (x + (lo - w / 2 * 3))) keep),
            l\<lparr>data := (keep, map (\<lambda>x. f (x + (lo - w / 2 * 3))) keep),
               height := f (lo - w / 2 * 3)\<rparr>)"
proof -
  let ?xs = "fst (data l)"
  let ?shift = "lo - w / 2 * 3"
  let ?l1 = "l\<lparr>height := f ?shift\<rparr>"
  let ?l2 = "?l1\<lparr>data := (?xs, map (\<lambda>x. f (x + ?shift)) ?xs)\<rparr>"
  have fz: "find_zlp_max ext l = (Inr (?shift, f ?shift), ?l1)"
    using find_zlp_max_antitone [OF sp anti ne w] unfolding lo .
  have sp1: "spline ext (data ?l1) = Inr f"
    using sp by simp
  have mn: "py_min (fst (data ?l2)) = Inr lo" and mx: "py_max (fst (data ?l2)) = Inr hi"
    using py_min_Min [OF ne] py_max_Max [OF ne] lo hi by simp_all
  have xr: "[lo, hi - ?shift] \<noteq> []" by simp
  have d2: "data ?l2 = (?xs, map (\<lambda>x. f (x + ?shift)) ?xs)" by simp
  have mm: "Min (set [lo, hi - ?shift]) = min lo (hi - ?shift)"
    "Max (set [lo, hi - ?shift]) = max lo (hi - ?shift)"
    by simp_all
  have sl: "slice_data ?l2 [lo, hi - ?shift] = Inr (keep, map (\<lambda>x. f (x + ?shift)) keep)"
    using slice_data_map [OF xr d2] unfolding mm keep .
  have mn0: "py_min ?xs = Inr lo" and mx0: "py_max ?xs = Inr hi"
    using py_min_Min [OF ne] py_max_Max [OF ne] lo hi by simp_all
  show ?thesis
    using sl by (simp add: Line_align_def fz sp mn0 mx0)
qed

subsection \<open>Lines.align\<close>

lemma slice_data_fst:
  assumes "slice_data l xrange = Inr d" and xr: "xrange \<noteq> []"
  shows "fst d = filter (\<lambda>x. Min (set xrange) \<le> x \<and> x \<le> Max (set xrange)) (fst (data l))"
proof -
  let ?xs = "fst (data l)"
  let ?P = "\<lambda>x. Min (set xrange) \<le> x \<and> x \<le> Max (set xrange)"
  let ?sel = "filter (\<lambda>i. ?P (?xs ! i)) [0..<length ?xs]"
  have "fst d = map (nth ?xs) ?sel"
    using assms(1)
    by (auto simp: slice_data_def py_min_Min [OF xr] py_max_Max [OF xr] Let_def split: if_splits)
  also have "\<dots> = filter ?P ?xs"
    by (rule map_nth_filter)
  finally show ?thesis .
qed

lemma Min_filter_le:
  fixes xs0 :: "real list"
  assumes "filter (\<lambda>t. t \<le> C) xs0 \<noteq> []"
  shows "Min (set (filter (\<lambda>t. t \<le> C) xs0)) = Min (set xs0)"
proof -
  from assms obtain t where t: "t \<in> set xs0" "t \<le> C"
    by (auto simp: filter_empty_conv)
  then have ne: "set xs0 \<noteq> {}" by auto
  have m: "Min (set xs0) \<in> set xs0" using ne by (intro Min_in) simp_all
  have "Min (set xs0) \<le> t" using t(1) by simp
  then have mC: "Min (set xs0) \<le> C" using t(2) by (rule order_trans)
  show ?thesis
  proof (rule Min_eqI)
    show "finite (set (filter (\<lambda>t. t \<le> C) xs0))" by simp
    show "\<And>y. y \<in> set (filter (\<lambda>t. t \<le> C) xs0) \<Longrightarrow> Min (set xs0) \<le> y" by simp
    show "Min (set xs0) \<in> set (filter (\<lambda>t. t \<le> C) xs0)" using m mC by simp
  qed
qed

lemma Line_align_x:
  assumes run: "Line_align ext l = (Inr d, l')"
  shows "data l' = d \<and> fst (data l) \<noteq> [] \<and> fst d \<noteq> []
       \<and> (\<exists>C. fst d = filter (\<lambda>t. t \<le> C) (fst (data l)))"
proof -
  let ?xs = "fst (data l)"
  obtain r0 l1 where fz: "find_zlp_max ext l = (r0, l1)"
    by (cases "find_zlp_max ext l") auto
  from run fz obtain shift hgt where r0: "r0 = Inr (shift, hgt)"
    by (cases r0) (auto simp: Line_align_def)
  have l1: "l1 = l\<lparr>height := hgt\<rparr>"
    using find_zlp_max_object [OF fz] r0 by simp
  from run fz r0 l1 obtain y_spl lo hi where
    mn: "py_min ?xs = Inr lo" and mx: "py_max ?xs = Inr hi"
    and sl: "slice_data (l\<lparr>height := hgt, data := (?xs, map (\<lambda>x. y_spl (x + shift)) ?xs)\<rparr>)
               [lo, hi - shift] = Inr d"
    and l': "data l' = d"
    by (auto simp: Line_align_def Let_def split: sum.splits)
  have ne: "?xs \<noteq> []" using mn by (cases ?xs) auto
  have lo: "lo = Min (set ?xs)" using mn py_min_Min [OF ne] by simp
  have xr: "[lo, hi - shift] \<noteq> []" by simp
  have "fst d = filter (\<lambda>x. Min (set [lo, hi - shift]) \<le> x \<and> x \<le> Max (set [lo, hi - shift])) ?xs"
    using slice_data_fst [OF sl xr] by simp
  also have "\<dots> = filter (\<lambda>x. min lo (hi - shift) \<le> x \<and> x \<le> max lo (hi - shift)) ?xs"
    by simp
  also have "\<dots> = filter (\<lambda>t. t \<le> max lo (hi - shift)) ?xs"
  proof (rule filter_cong [OF refl])
    fix x assume "x \<in> set ?xs"
    then have "lo \<le> x" unfolding lo by simp
    then show "(min lo (hi - shift) \<le> x \<and> x \<le> max lo (hi - shift)) = (x \<le> max lo (hi - shift))"
      by auto
  qed
  finally have d: "fst d = filter (\<lambda>t. t \<le> max lo (hi - shift)) ?xs" .
  have "lo \<in> set ?xs" unfolding lo using ne by (intro Min_in) simp_all
  then have "lo \<in> set (fst d)" unfolding d by simp
  then have "fst d \<noteq> []" by auto
  with l' ne d show ?thesis by blast
qed

lemma align_each_frame:
  "align_each ext es h mins maxs hts = (r, h1, hts') \<Longrightarrow> e \<notin> set es \<Longrightarrow> h1 e = h e"
proof (induction es arbitrary: h mins maxs hts)
  case Nil
  then show ?case by simp
next
  case (Cons a es)
  from Cons.prems(2) have ne: "e \<noteq> a" and nin: "e \<notin> set es" by auto
  show ?case
  proof (cases "Line_align ext (h a)")
    case (Pair ra l')
    show ?thesis
    proof (cases ra)
      case (Inl err)
      then show ?thesis using Cons.prems(1) Pair ne by auto
    next
      case (Inr d)
      show ?thesis
      proof (cases "py_min (fst d)")
        case (Inl err)
        then show ?thesis using Cons.prems(1) Pair \<open>ra = Inr d\<close> ne by auto
      next
        case mn: (Inr mn)
        show ?thesis
        proof (cases "py_max (fst d)")
          case (Inl err)
          then show ?thesis using Cons.prems(1) Pair \<open>ra = Inr d\<close> mn ne by auto
        next
          case mx: (Inr mx)
          have "align_each ext es (h(a := l'\<lparr>data := d\<rparr>)) (mins @ [mn]) (maxs @ [mx])
                  (hts @ [height l']) = (r, h1, hts')"
            using Cons.prems(1) Pair \<open>ra = Inr d\<close> mn mx by simp
          from Cons.IH [OF this nin] show ?thesis using ne by simp
        qed
      qed
    qed
  qed
qed

lemma align_each_step:
  assumes "align_each ext (a # es) h mins maxs hts = (Inr (mins', maxs'), h1, hts')"
  obtains d l' where "Line_align ext (h a) = (Inr d, l')" and "fst d \<noteq> []"
    and "align_each ext es (h(a := l'\<lparr>data := d\<rparr>)) (mins @ [Min (set (fst d))])
           (maxs @ [Max (set (fst d))]) (hts @ [height l']) = (Inr (mins', maxs'), h1, hts')"
proof -
  obtain ra l' where la: "Line_align ext (h a) = (ra, l')"
    by (cases "Line_align ext (h a)") auto
  from assms la obtain d where ra: "ra = Inr d"
    by (cases ra) auto
  have ne: "fst d \<noteq> []"
    using Line_align_x [of ext "h a" d l'] la ra by simp
  have "align_each ext es (h(a := l'\<lparr>data := d\<rparr>)) (mins @ [Min (set (fst d))])
           (maxs @ [Max (set (fst d))]) (hts @ [height l']) = (Inr (mins', maxs'), h1, hts')"
    using assms la ra by (simp add: py_min_Min [OF ne] py_max_Max [OF ne])
  with la ra ne that show ?thesis by blast
qed

lemma align_each_heights:
  "align_each ext es h mins maxs hts = (Inr (mins', maxs'), h1, hts') \<Longrightarrow>
     \<exists>new. hts' = hts @ new \<and> length new = length es"
proof (induction es arbitrary: h mins maxs hts)
  case Nil
  then show ?case by simp
next
  case (Cons a es)
  from Cons.prems obtain d l' where
    rec: "align_each ext es (h(a := l'\<lparr>data := d\<rparr>)) (mins @ [Min (set (fst d))])
           (maxs @ [Max (set (fst d))]) (hts @ [height l']) = (Inr (mins', maxs'), h1, hts')"
    by (rule align_each_step)
  from Cons.IH [OF rec] obtain new where "hts' = (hts @ [height l']) @ new" "length new = length es"
    by blast
  then have "hts' = hts @ (height l' # new) \<and> length (height l' # new) = length (a # es)"
    by simp
  then show ?case by blast
qed

lemma Lines_align_heights:
  assumes "Lines_align ext h c = (Inr (), h', c')"
  shows "elements c' = elements c
       \<and> (\<exists>new. heights c' = heights c @ new \<and> length new = length (elements c))"
proof -
  obtain r h1 hts where ae: "align_each ext (elements c) h [] [] (heights c) = (r, h1, hts)"
    by (cases "align_each ext (elements c) h [] [] (heights c)") auto
  from assms ae obtain mins maxs where r: "r = Inr (mins, maxs)"
    by (cases r) (auto simp: Lines_align_def)
  have c': "c' = c\<lparr>heights := hts\<rparr>"
    using assms ae r by (auto simp: Lines_align_def split: sum.splits prod.splits)
  from align_each_heights [OF ae [unfolded r]] c' show ?thesis by simp
qed

lemma align_times_heights:
  "align_times ext k h c = (Inr (), h', c') \<Longrightarrow>
     elements c' = elements c
     \<and> (\<exists>new. heights c' = heights c @ new \<and> length new = k * length (elements c))"
proof (induction k arbitrary: h c)
  case 0
  then show ?case by simp
next
  case (Suc k)
  obtain r h1 c1 where la: "Lines_align ext h c = (r, h1, c1)"
    by (cases "Lines_align ext h c") auto
  from Suc.prems la have r: "r = Inr ()" and rest: "align_times ext k h1 c1 = (Inr (), h', c')"
    by (cases r; simp)+
  from Lines_align_heights [OF la [unfolded r]] obtain new1 where
    e1: "elements c1 = elements c" and h1: "heights c1 = heights c @ new1"
    and n1: "length new1 = length (elements c)"
    by blast
  from Suc.IH [OF rest] obtain new2 where
    e2: "elements c' = elements c1" and h2: "heights c' = heights c1 @ new2"
    and n2: "length new2 = k * length (elements c1)"
    by blast
  have "heights c' = heights c @ (new1 @ new2)" using h1 h2 by simp
  moreover have "length (new1 @ new2) = Suc k * length (elements c)" using n1 n2 e1 by simp
  ultimately show ?case using e1 e2 by metis
qed

lemma align_each_grid:
  assumes "align_each ext es h mins maxs hts = (Inr (mins', maxs'), h1, hts')"
    and "set es \<subseteq> S"
    and "\<forall>e\<in>S. fst (data (h e)) \<noteq> [] \<and> (\<exists>C. fst (data (h e)) = filter (\<lambda>t. t \<le> C) xs0)"
  shows "(\<forall>e\<in>S. fst (data (h1 e)) \<noteq> [] \<and> (\<exists>C. fst (data (h1 e)) = filter (\<lambda>t. t \<le> C) xs0))
       \<and> (\<exists>ms. mins' = mins @ ms \<and> length ms = length es \<and> (\<forall>m\<in>set ms. m = Min (set xs0)))
       \<and> (\<exists>ms. maxs' = maxs @ ms \<and> length ms = length es \<and> (\<forall>m\<in>set ms. Min (set xs0) \<le> m)
              \<and> (\<forall>e\<in>set es. Max (set (fst (data (h1 e)))) \<in> set ms))"
  using assms
proof (induction es arbitrary: h mins maxs hts)
  case Nil
  then show ?case by simp
next
  case (Cons a es)
  from Cons.prems(1) obtain d l' where la: "Line_align ext (h a) = (Inr d, l')"
    and ne: "fst d \<noteq> []"
    and rec: "align_each ext es (h(a := l'\<lparr>data := d\<rparr>)) (mins @ [Min (set (fst d))])
           (maxs @ [Max (set (fst d))]) (hts @ [height l']) = (Inr (mins', maxs'), h1, hts')"
    by (rule align_each_step)
  let ?h = "h(a := l'\<lparr>data := d\<rparr>)"
  have aS: "a \<in> S" and sub: "set es \<subseteq> S" using Cons.prems(2) by auto
  from Cons.prems(3) aS obtain C where C: "fst (data (h a)) = filter (\<lambda>t. t \<le> C) xs0"
    and nea: "fst (data (h a)) \<noteq> []"
    by blast
  from Line_align_x [OF la] obtain C' where C': "fst d = filter (\<lambda>t. t \<le> C') (fst (data (h a)))"
    by blast
  have dC: "fst d = filter (\<lambda>t. t \<le> min C C') xs0"
    unfolding C' C by (simp add: conj_commute)
  have mind: "Min (set (fst d)) = Min (set xs0)"
    using Min_filter_le [of "min C C'" xs0] ne dC by simp
  have maxd: "Min (set xs0) \<le> Max (set (fst d))"
  proof -
    have "Min (set (fst d)) \<in> set (fst d)" using ne by (intro Min_in) simp_all
    then have "Min (set (fst d)) \<le> Max (set (fst d))" by simp
    then show ?thesis unfolding mind .
  qed
  have inv: "\<forall>e\<in>S. fst (data (?h e)) \<noteq> [] \<and> (\<exists>C. fst (data (?h e)) = filter (\<lambda>t. t \<le> C) xs0)"
  proof
    fix e assume e: "e \<in> S"
    show "fst (data (?h e)) \<noteq> [] \<and> (\<exists>C. fst (data (?h e)) = filter (\<lambda>t. t \<le> C) xs0)"
    proof (cases "e = a")
      case True
      then have x: "fst (data (?h e)) = fst d" by simp
      show ?thesis unfolding x using ne dC by blast
    next
      case False
      then show ?thesis using Cons.prems(3) e by simp
    qed
  qed
  from Cons.IH [OF rec sub inv] obtain ms Ms where
    i1: "\<forall>e\<in>S. fst (data (h1 e)) \<noteq> [] \<and> (\<exists>C. fst (data (h1 e)) = filter (\<lambda>t. t \<le> C) xs0)"
    and i2: "mins' = (mins @ [Min (set (fst d))]) @ ms" "length ms = length es"
      "\<forall>m\<in>set ms. m = Min (set xs0)"
    and i3: "maxs' = (maxs @ [Max (set (fst d))]) @ Ms" "length Ms = length es"
      "\<forall>m\<in>set Ms. Min (set xs0) \<le> m"
      "\<forall>e\<in>set es. Max (set (fst (data (h1 e)))) \<in> set Ms"
    by blast
  have a2: "mins' = mins @ (Min (set xs0) # ms) \<and> length (Min (set xs0) # ms) = length (a # es)
            \<and> (\<forall>m\<in>set (Min (set xs0) # ms). m = Min (set xs0))"
    using i2 mind by simp
  have amax: "Max (set (fst (data (h1 a)))) \<in> set (Max (set (fst d)) # Ms)"
  proof (cases "a \<in> set es")
    case True
    then show ?thesis using i3(4) by simp
  next
    case False
    have "h1 a = ?h a" using align_each_frame [OF rec False] .
    then show ?thesis by simp
  qed
  have a3: "maxs' = maxs @ (Max (set (fst d)) # Ms)
            \<and> length (Max (set (fst d)) # Ms) = length (a # es)
            \<and> (\<forall>m\<in>set (Max (set (fst d)) # Ms). Min (set xs0) \<le> m)
            \<and> (\<forall>e\<in>set (a # es). Max (set (fst (data (h1 e)))) \<in> set (Max (set (fst d)) # Ms))"
    using i3 maxd amax by simp
  from i1 a2 a3 show ?case by blast
qed

lemma slice_each_x:
  assumes "slice_each es xrange h = (Inr (), h2)" and xr: "xrange \<noteq> []"
  shows "fst (data (h2 e)) =
           (if e \<in> set es
            then filter (\<lambda>x. Min (set xrange) \<le> x \<and> x \<le> Max (set xrange)) (fst (data (h e)))
            else fst (data (h e)))"
  using assms(1)
proof (induction es arbitrary: h)
  case Nil
  then show ?case by simp
next
  case (Cons a es)
  let ?P = "\<lambda>x. Min (set xrange) \<le> x \<and> x \<le> Max (set xrange)"
  from Cons.prems obtain d where sd: "slice_data (h a) xrange = Inr d"
    and rec: "slice_each es xrange (h(a := (h a)\<lparr>data := d\<rparr>)) = (Inr (), h2)"
    by (cases "slice_data (h a) xrange") auto
  have d: "fst d = filter ?P (fst (data (h a)))"
    using slice_data_fst [OF sd xr] .
  note ih = Cons.IH [OF rec]
  show ?case
  proof (cases "e = a")
    case True
    then show ?thesis using ih d by simp
  next
    case False
    then show ?thesis using ih by simp
  qed
qed

lemma align_each_minmax:
  assumes "align_each ext es h mins maxs hts = (Inr (mins', maxs'), h1, hts')"
    and "distinct es"
  shows "mins' = mins @ map (\<lambda>e. Min (set (fst (data (h1 e))))) es
       \<and> maxs' = maxs @ map (\<lambda>e. Max (set (fst (data (h1 e))))) es"
  using assms
proof (induction es arbitrary: h mins maxs hts)
  case Nil
  then show ?case by simp
next
  case (Cons a es)
  from Cons.prems(1) obtain d l' where
    rec: "align_each ext es (h(a := l'\<lparr>data := d\<rparr>)) (mins @ [Min (set (fst d))])
           (maxs @ [Max (set (fst d))]) (hts @ [height l']) = (Inr (mins', maxs'), h1, hts')"
    by (rule align_each_step)
  have nin: "a \<notin> set es" and dis: "distinct es" using Cons.prems(2) by simp_all
  have "h1 a = (h(a := l'\<lparr>data := d\<rparr>)) a"
    using align_each_frame [OF rec nin] .
  then have a: "fst (data (h1 a)) = fst d" by simp
  from Cons.IH [OF rec dis] show ?case by (simp add: a)
qed

lemma la_down5:
  assumes d: "data l = ([2, 3, 4, 5, 6], [4, 3, 2, 1, 0])"
  shows "Line_align ext_line l =
           (Inr ([2, 3, 4, 5], [7/2, 5/2, 3/2, 1/2]),
            l\<lparr>data := ([2, 3, 4, 5], [7/2, 5/2, 3/2, 1/2]), height := 11/2\<rparr>)"
proof -
  have sp: "spline ext_line (data l) = Inr (\<lambda>t. 6 - t)"
    by (simp add: spline_def ext_line_def d fun_eq_iff)
  have anti: "\<forall>s t::real. s \<le> t \<longrightarrow> 6 - t \<le> 6 - s" by simp
  have ne: "fst (data l) \<noteq> []" by (simp add: d)
  have w: "get_HWHM l = Inr 1"
    by (simp add: get_HWHM_def d upt_rec)
  have lo: "Min (set (fst (data l))) = 2" and hi: "Max (set (fst (data l))) = 6"
    by (simp_all add: d)
  have keep: "filter (\<lambda>x. min 2 (6 - (2 - 1 / 2 * 3)) \<le> x \<and> x \<le> max 2 (6 - (2 - 1 / 2 * 3)))
                (fst (data l)) = [2, 3, 4, 5 :: real]"
    by (simp add: d)
  show ?thesis
    using Line_align_antitone [OF sp anti ne w lo hi keep] by simp
qed

lemma la_level5:
  assumes d: "data l = ([2, 3, 4, 5, 6], [1, 1, 1, 1, 1])"
  shows "Line_align ext_line l =
           (Inr ([2, 3, 4, 5, 6], [1, 1, 1, 1, 1]),
            l\<lparr>data := ([2, 3, 4, 5, 6], [1, 1, 1, 1, 1]), height := 1\<rparr>)"
proof -
  have sp: "spline ext_line (data l) = Inr (\<lambda>t. 1)"
    by (simp add: spline_def ext_line_def d fun_eq_iff)
  have anti: "\<forall>s t::real. s \<le> t \<longrightarrow> (1::real) \<le> 1" by simp
  have ne: "fst (data l) \<noteq> []" by (simp add: d)
  have w: "get_HWHM l = Inr 4"
    by (simp add: get_HWHM_def d upt_rec)
  have lo: "Min (set (fst (data l))) = 2" and hi: "Max (set (fst (data l))) = 6"
    by (simp_all add: d)
  have keep: "filter (\<lambda>x. min 2 (6 - (2 - 4 / 2 * 3)) \<le> x \<and> x \<le> max 2 (6 - (2 - 4 / 2 * 3)))
                (fst (data l)) = [2, 3, 4, 5, 6 :: real]"
    by (simp add: d)
  show ?thesis
    using Line_align_antitone [OF sp anti ne w lo hi keep] by simp
qed

lemma la_down4:
  assumes d: "data l = ([2, 3, 4, 5], [7/2, 5/2, 3/2, 1/2])"
  shows "Line_align ext_line l =
           (Inr ([2, 3, 4], [3, 2, 1]), l\<lparr>data := ([2, 3, 4], [3, 2, 1]), height := 5\<rparr>)"
proof -
  have sp: "spline ext_line (data l) = Inr (\<lambda>t. 11/2 - t)"
    by (simp add: spline_def ext_line_def d fun_eq_iff)
  have anti: "\<forall>s t::real. s \<le> t \<longrightarrow> 11/2 - t \<le> 11/2 - s" by simp
  have ne: "fst (data l) \<noteq> []" by (simp add: d)
  have w: "get_HWHM l = Inr 1"
    by (simp add: get_HWHM_def d upt_rec)
  have lo: "Min (set (fst (data l))) = 2" and hi: "Max (set (fst (data l))) = 5"
    by (simp_all add: d)
  have keep: "filter (\<lambda>x. min 2 (5 - (2 - 1 / 2 * 3)) \<le> x \<and> x \<le> max 2 (5 - (2 - 1 / 2 * 3)))
                (fst (data l)) = [2, 3, 4 :: real]"
    by (simp add: d)
  show ?thesis
    using Line_align_antitone [OF sp anti ne w lo hi keep] by simp
qed

lemma la_level4:
  assumes d: "data l = ([2, 3, 4, 5], [1, 1, 1, 1])"
  shows "Line_align ext_line l =
           (Inr ([2, 3, 4, 5], [1, 1, 1, 1]), l\<lparr>data := ([2, 3, 4, 5], [1, 1, 1, 1]), height := 1\<rparr>)"
proof -
  have sp: "spline ext_line (data l) = Inr (\<lambda>t. 1)"
    by (simp add: spline_def ext_line_def d fun_eq_iff)
  have anti: "\<forall>s t::real. s \<le> t \<longrightarrow> (1::real) \<le> 1" by simp
  have ne: "fst (data l) \<noteq> []" by (simp add: d)
  have w: "get_HWHM l = Inr 3"
    by (simp add: get_HWHM_def d upt_rec)
  have lo: "Min (set (fst (data l))) = 2" and hi: "Max (set (fst (data l))) = 5"
    by (simp_all add: d)
  have keep: "filter (\<lambda>x. min 2 (5 - (2 - 3 / 2 * 3)) \<le> x \<and> x \<le> max 2 (5 - (2 - 3 / 2 * 3)))
                (fst (data l)) = [2, 3, 4, 5 :: real]"
    by (simp add: d)
  show ?thesis
    using Line_align_antitone [OF sp anti ne w lo hi keep] by simp
qed

lemma Lines_align_run1:
  assumes e: "elements c = [0, 1]"
    and d0: "data (h 0) = ([2, 3, 4, 5, 6], [4, 3, 2, 1, 0])"
    and d1: "data (h (Suc 0)) = ([2, 3, 4, 5, 6], [1, 1, 1, 1, 1])"
  shows "\<exists>h'. Lines_align ext_line h c = (Inr (), h', c\<lparr>heights := heights c @ [11/2, 1]\<rparr>)
           \<and> data (h' 0) = ([2, 3, 4, 5], [7/2, 5/2, 3/2, 1/2])
           \<and> data (h' (Suc 0)) = ([2, 3, 4, 5], [1, 1, 1, 1])"
  by (simp add: Lines_align_def e la_down5 [OF d0] la_level5 [OF d1] slice_data_zip)

lemma Lines_align_run2:
  assumes e: "elements c = [0, 1]"
    and d0: "data (h 0) = ([2, 3, 4, 5], [7/2, 5/2, 3/2, 1/2])"
    and d1: "data (h (Suc 0)) = ([2, 3, 4, 5], [1, 1, 1, 1])"
  shows "\<exists>h'. Lines_align ext_line h c = (Inr (), h', c\<lparr>heights := heights c @ [5, 1]\<rparr>)
           \<and> data (h' 0) = ([2, 3, 4], [3, 2, 1])
           \<and> data (h' (Suc 0)) = ([2, 3, 4], [1, 1, 1])"
  by (simp add: Lines_align_def e la_down4 [OF d0] la_level4 [OF d1] slice_data_zip)

lemma h_two_data:
  "data (h_two 0) = ([2, 3, 4, 5, 6], [4, 3, 2, 1, 0])"
  "data (h_two (Suc 0)) = ([2, 3, 4, 5, 6], [1, 1, 1, 1, 1])"
  by (simp_all add: h_two_def L_down_def L_level_def)

lemma c_two_elements: "elements c_two = [0, 1]"
  by (simp add: c_two_def)

text \<open>With no element, line 248 takes the maximum of an empty list.\<close>

lemma Lines_align_empty:
  "elements c = [] \<Longrightarrow> Lines_align ext h c = (Inl ValueError, h, c\<lparr>heights := heights c\<rparr>)"
  by (simp add: Lines_align_def)

text \<open>
  C7. When all elements have the x array \<open>xs0\<close> and \<^verbatim>\<open>Lines.align\<close> returns, every
  element's x array is the same list: \<open>xs0\<close> restricted to the range from the largest
  entry of \<open>xmin_list\<close> to the smallest entry of \<open>xmax_list\<close>, the two lists the first
  loop builds (lines 245-246). With distinct elements these are the minima and the
  maxima of the elements' x arrays after the first loop, that is after each
  \<^verbatim>\<open>Line.align\<close>. The method raises on an empty collection.
\<close>

theorem Lines_align_common_grid:
  assumes same: "\<forall>e\<in>set (elements c). fst (data (h e)) = xs0"
    and run: "Lines_align ext h c = (Inr (), h', c')"
  shows "\<exists>xmin_list xmax_list h1 hts.
           align_each ext (elements c) h [] [] (heights c) = (Inr (xmin_list, xmax_list), h1, hts)
           \<and> length xmin_list = length (elements c) \<and> length xmax_list = length (elements c)
           \<and> elements c \<noteq> []
           \<and> (distinct (elements c) \<longrightarrow>
                xmin_list = map (\<lambda>e. Min (set (fst (data (h1 e))))) (elements c)
                \<and> xmax_list = map (\<lambda>e. Max (set (fst (data (h1 e))))) (elements c))
           \<and> (\<forall>e\<in>set (elements c).
                fst (data (h' e)) =
                  filter (\<lambda>t. Max (set xmin_list) \<le> t \<and> t \<le> Min (set xmax_list)) xs0)"
proof -
  let ?es = "elements c"
  obtain r h1 hts where ae: "align_each ext ?es h [] [] (heights c) = (r, h1, hts)"
    by (cases "align_each ext ?es h [] [] (heights c)") auto
  from run ae obtain mins maxs where r: "r = Inr (mins, maxs)"
    by (cases r) (auto simp: Lines_align_def)
  note ae' = ae [unfolded r]
  from run ae r obtain lo hi where lo: "py_max mins = Inr lo" and hi: "py_min maxs = Inr hi"
    and sl: "slice_each ?es [lo, hi] h1 = (Inr (), h')"
    by (auto simp: Lines_align_def split: sum.splits prod.splits)
  have mne: "mins \<noteq> []" using lo by (cases mins) auto
  have Mne: "maxs \<noteq> []" using hi by (cases maxs) auto
  have lo': "lo = Max (set mins)" using lo py_max_Max [OF mne] by simp
  have hi': "hi = Min (set maxs)" using hi py_min_Min [OF Mne] by simp
  have ene: "?es \<noteq> []"
  proof
    assume "?es = []"
    then have "mins = []" using ae' by simp
    then show False using mne by simp
  qed
  then obtain a es' where es: "?es = a # es'" by (cases ?es) auto
  from ae' [unfolded es] obtain d l' where la: "Line_align ext (h a) = (Inr d, l')"
    by (rule align_each_step)
  have "fst (data (h a)) \<noteq> []" using Line_align_x [OF la] by simp
  moreover have "fst (data (h a)) = xs0" using same es by simp
  ultimately have x0: "xs0 \<noteq> []" by simp
  have full: "filter (\<lambda>t. t \<le> Max (set xs0)) xs0 = xs0"
    by (simp add: filter_id_conv)
  have inv0: "\<forall>e\<in>set ?es. fst (data (h e)) \<noteq> []
                \<and> (\<exists>C. fst (data (h e)) = filter (\<lambda>t. t \<le> C) xs0)"
    using same x0 full by metis
  from align_each_grid [OF ae' subset_refl inv0] obtain ms Ms where
    i1: "\<forall>e\<in>set ?es. fst (data (h1 e)) \<noteq> []
           \<and> (\<exists>C. fst (data (h1 e)) = filter (\<lambda>t. t \<le> C) xs0)"
    and i2: "mins = [] @ ms" "length ms = length ?es" "\<forall>m\<in>set ms. m = Min (set xs0)"
    and i3: "maxs = [] @ Ms" "length Ms = length ?es" "\<forall>m\<in>set Ms. Min (set xs0) \<le> m"
      "\<forall>e\<in>set ?es. Max (set (fst (data (h1 e)))) \<in> set Ms"
    by blast
  have mins: "mins = ms" and maxs: "maxs = Ms" using i2(1) i3(1) by simp_all
  have lo0: "lo = Min (set xs0)"
  proof -
    have "Max (set mins) \<in> set mins" using mne by (intro Max_in) simp_all
    then show ?thesis using i2(3) mins lo' by simp
  qed
  have lohi: "lo \<le> hi"
  proof -
    have "Min (set maxs) \<in> set maxs" using Mne by (intro Min_in) simp_all
    then show ?thesis using i3(3) maxs hi' lo0 by simp
  qed
  have xr: "[lo, hi] \<noteq> []" by simp
  have mm: "Min (set [lo, hi]) = lo" "Max (set [lo, hi]) = hi"
    using lohi by (simp_all add: min_def max_def)
  have final: "\<forall>e\<in>set ?es. fst (data (h' e)) = filter (\<lambda>t. lo \<le> t \<and> t \<le> hi) xs0"
  proof
    fix e assume e: "e \<in> set ?es"
    from i1 e obtain C where C: "fst (data (h1 e)) = filter (\<lambda>t. t \<le> C) xs0"
      and ne: "fst (data (h1 e)) \<noteq> []"
      by blast
    let ?M = "Max (set (fst (data (h1 e))))"
    have "?M \<in> set (fst (data (h1 e)))" using ne by (intro Max_in) simp_all
    then have MC: "?M \<le> C" unfolding C by simp
    have "?M \<in> set maxs" using i3(4) e maxs by simp
    then have hiM: "hi \<le> ?M" unfolding hi' by simp
    have hiC: "hi \<le> C" using hiM MC by (rule order_trans)
    have "fst (data (h' e)) = filter (\<lambda>x. lo \<le> x \<and> x \<le> hi) (fst (data (h1 e)))"
      using slice_each_x [OF sl xr, of e] e unfolding mm by simp
    also have "\<dots> = filter (\<lambda>t. t \<le> C \<and> lo \<le> t \<and> t \<le> hi) xs0"
      unfolding C by simp
    also have "\<dots> = filter (\<lambda>t. lo \<le> t \<and> t \<le> hi) xs0"
      by (rule filter_cong [OF refl]) (use hiC in auto)
    finally show "fst (data (h' e)) = filter (\<lambda>t. lo \<le> t \<and> t \<le> hi) xs0" .
  qed
  have len: "length mins = length ?es" "length maxs = length ?es"
    using i2(2) i3(2) mins maxs by simp_all
  have dist: "distinct ?es \<longrightarrow>
                mins = map (\<lambda>e. Min (set (fst (data (h1 e))))) ?es
                \<and> maxs = map (\<lambda>e. Max (set (fst (data (h1 e))))) ?es"
    using align_each_minmax [OF ae'] by simp
  show ?thesis
    using ae' len ene dist final unfolding lo' hi' by blast
qed

text \<open>
  The decreasing and the level curve on the grid 2, ..., 6: aligning cuts the first to
  2, ..., 5 and leaves the second whole; both end on 2, ..., 5.
\<close>

theorem Lines_align_common_grid_witness:
  "fst (data (h_two 0)) = [2, 3, 4, 5, 6] \<and> fst (data (h_two 1)) = [2, 3, 4, 5, 6]
   \<and> elements c_two = [0, 1]
   \<and> (\<exists>h' c'. Lines_align ext_line h_two c_two = (Inr (), h', c')
          \<and> fst (data (h' 0)) = [2, 3, 4, 5] \<and> fst (data (h' 1)) = [2, 3, 4, 5]
          \<and> (\<exists>xmin_list xmax_list h1 hts.
                align_each ext_line (elements c_two) h_two [] [] (heights c_two)
                  = (Inr (xmin_list, xmax_list), h1, hts)
                \<and> length xmin_list = 2 \<and> length xmax_list = 2
                \<and> xmin_list = map (\<lambda>e. Min (set (fst (data (h1 e))))) [0, 1]
                \<and> xmax_list = map (\<lambda>e. Max (set (fst (data (h1 e))))) [0, 1]
                \<and> fst (data (h' 0)) =
                      filter (\<lambda>t. Max (set xmin_list) \<le> t \<and> t \<le> Min (set xmax_list))
                        [2, 3, 4, 5, 6]
                \<and> fst (data (h' 1)) =
                      filter (\<lambda>t. Max (set xmin_list) \<le> t \<and> t \<le> Min (set xmax_list))
                        [2, 3, 4, 5, 6]))"
proof -
  have same: "\<forall>e\<in>set (elements c_two). fst (data (h_two e)) = [2, 3, 4, 5, 6]"
    by (simp add: c_two_def h_two_def L_down_def L_level_def)
  have s0: "fst (data (h_two 0)) = [2, 3, 4, 5, 6]" and s1: "fst (data (h_two 1)) = [2, 3, 4, 5, 6]"
    by (simp_all add: h_two_def L_down_def L_level_def)
  obtain h' where run: "Lines_align ext_line h_two c_two
                          = (Inr (), h', c_two\<lparr>heights := heights c_two @ [11/2, 1]\<rparr>)"
    and x0: "data (h' 0) = ([2, 3, 4, 5], [7/2, 5/2, 3/2, 1/2])"
    and x1: "data (h' (Suc 0)) = ([2, 3, 4, 5], [1, 1, 1, 1])"
    using Lines_align_run1 [OF c_two_elements h_two_data] by blast
  have ex: "\<exists>xmin_list xmax_list h1 hts.
    align_each ext_line (elements c_two) h_two [] [] (heights c_two)
       = (Inr (xmin_list, xmax_list), h1, hts)
     \<and> length xmin_list = 2 \<and> length xmax_list = 2
     \<and> xmin_list = map (\<lambda>e. Min (set (fst (data (h1 e))))) [0, 1]
     \<and> xmax_list = map (\<lambda>e. Max (set (fst (data (h1 e))))) [0, 1]
     \<and> fst (data (h' 0)) =
           filter (\<lambda>t. Max (set xmin_list) \<le> t \<and> t \<le> Min (set xmax_list)) [2, 3, 4, 5, 6]
     \<and> fst (data (h' 1)) =
           filter (\<lambda>t. Max (set xmin_list) \<le> t \<and> t \<le> Min (set xmax_list)) [2, 3, 4, 5, 6]"
    using Lines_align_common_grid [OF same run] by (simp add: c_two_def)
  have f0: "fst (data (h' 0)) = [2, 3, 4, 5]" using x0 by simp
  have f1: "fst (data (h' 1)) = [2, 3, 4, 5]" using x1 by simp
  show ?thesis
    apply (intro conjI)
       apply (rule s0)
      apply (rule s1)
     apply (rule c_two_elements)
    apply (rule exI [of _ h'])
    apply (rule exI [of _ "c_two\<lparr>heights := heights c_two @ [11/2, 1]\<rparr>"])
    apply (intro conjI)
       apply (rule run)
      apply (rule f0)
     apply (rule f1)
    apply (rule ex)
    done
qed

text \<open>
  C10. Each \<^verbatim>\<open>Lines.align\<close> that returns appends one height for each element to
  \<^verbatim>\<open>heights\<close> and keeps what was there; \<open>k\<close> calls in a row that all return leave
  the elements as they were and append \<open>k\<close> times their number. Starting from the empty
  list of the constructor the length is \<open>k * n\<close>, which is the number of elements
  only for \<open>k = 1\<close>.
\<close>

theorem align_times_appends_heights:
  assumes "align_times ext k h c = (Inr (), h', c')"
  shows "elements c' = elements c
       \<and> (\<exists>new. heights c' = heights c @ new \<and> length new = k * length (elements c))
       \<and> (heights c = [] \<longrightarrow> length (heights c') = k * length (elements c))
       \<and> (heights c = [] \<and> elements c \<noteq> [] \<longrightarrow>
            (length (heights c') = length (elements c') \<longleftrightarrow> k = 1))"
proof -
  from align_times_heights [OF assms] obtain new where
    e: "elements c' = elements c" and h: "heights c' = heights c @ new"
    and n: "length new = k * length (elements c)"
    by blast
  have a: "heights c = [] \<longrightarrow> length (heights c') = k * length (elements c)"
    using h n by simp
  have b: "heights c = [] \<and> elements c \<noteq> [] \<longrightarrow>
            (length (heights c') = length (elements c') \<longleftrightarrow> k = 1)"
    using h n e by auto
  from e h n a b show ?thesis by blast
qed

text \<open>Two calls on the two curves: four heights for two elements.\<close>

theorem align_times_appends_heights_witness:
  "\<exists>h' c'. align_times ext_line 2 h_two c_two = (Inr (), h', c')
     \<and> elements c' = [0, 1] \<and> elements c_two = [0, 1] \<and> heights c_two = []
     \<and> heights c' = [11/2, 1, 5, 1]
     \<and> length (heights c') = 2 * length (elements c_two)
     \<and> length (heights c') \<noteq> length (elements c')"
proof -
  let ?c1 = "c_two\<lparr>heights := heights c_two @ [11/2, 1]\<rparr>"
  let ?c2 = "?c1\<lparr>heights := heights ?c1 @ [5, 1]\<rparr>"
  obtain h1 where r1: "Lines_align ext_line h_two c_two = (Inr (), h1, ?c1)"
    and x0: "data (h1 0) = ([2, 3, 4, 5], [7/2, 5/2, 3/2, 1/2])"
    and x1: "data (h1 (Suc 0)) = ([2, 3, 4, 5], [1, 1, 1, 1])"
    using Lines_align_run1 [OF c_two_elements h_two_data] by blast
  have e1: "elements ?c1 = [0, 1]" by (simp add: c_two_def)
  obtain h2 where r2: "Lines_align ext_line h1 ?c1 = (Inr (), h2, ?c2)"
    using Lines_align_run2 [OF e1 x0 x1] by blast
  have run: "align_times ext_line 2 h_two c_two = (Inr (), h2, ?c2)"
    using r1 r2 by (simp add: numeral_2_eq_2)
  have hs: "heights ?c2 = [11/2, 1, 5, 1]" "heights c_two = []" "elements ?c2 = [0, 1]"
    by (simp_all add: c_two_def)
  show ?thesis
    using run hs c_two_elements align_times_appends_heights [OF run]
    by (intro exI [of _ h2] exI [of _ ?c2]) simp
qed

subsection \<open>The refinement window of find_zlp_max\<close>

lemma length_np_linspace: "length (np_linspace a b num) = num"
  by (simp add: np_linspace_def)

lemma np_argmax_first_max:
  assumes "np_argmax vs = Inr i"
  shows "i < length vs \<and> vs ! i = Max (set vs) \<and> (\<forall>j<i. vs ! j < Max (set vs))
       \<and> py_max vs = Inr (Max (set vs))"
proof (cases vs)
  case Nil
  with assms show ?thesis by simp
next
  case (Cons x xs)
  let ?M = "Max (set vs)"
  let ?P = "\<lambda>y. y \<noteq> ?M"
  have ne: "vs \<noteq> []" using Cons by simp
  have M: "fold max xs x = ?M"
    unfolding Cons by (rule Max.set_eq_fold [symmetric])
  have i: "i = length (takeWhile ?P vs)"
    using assms unfolding Cons np_argmax.simps M [unfolded Cons] by simp
  have Min: "?M \<in> set vs" using ne by (intro Max_in) simp_all
  have lt: "i < length vs"
  proof (rule ccontr)
    assume "\<not> i < length vs"
    then have "length (takeWhile ?P vs) = length vs"
      using i length_takeWhile_le [of ?P vs] by simp
    then have "takeWhile ?P vs = vs"
      using takeWhile_eq_take [of ?P vs] by simp
    then have "\<forall>y\<in>set vs. ?P y" by (simp add: takeWhile_eq_all_conv)
    then show False using Min by blast
  qed
  have at: "vs ! i = ?M"
    using nth_length_takeWhile [of ?P vs] lt i by simp
  have before: "\<forall>j<i. vs ! j < ?M"
  proof (intro allI impI)
    fix j assume j: "j < i"
    then have jl: "j < length (takeWhile ?P vs)" using i by simp
    have "takeWhile ?P vs ! j \<in> set (takeWhile ?P vs)" using jl by simp
    then have "?P (takeWhile ?P vs ! j)" by (rule set_takeWhileD [THEN conjunct2])
    then have neq: "vs ! j \<noteq> ?M" using takeWhile_nth [OF jl] by simp
    have "vs ! j \<in> set vs" using j lt by simp
    then have "vs ! j \<le> ?M" by simp
    with neq show "vs ! j < ?M" by simp
  qed
  have "py_max vs = Inr ?M" using ne by (rule py_max_Max)
  with lt at before show ?thesis by blast
qed

lemma zlp_refine_spec:
  assumes r: "zlp_refine f [a, b] = Inr (shift, hgt)" and ab: "a \<le> b"
  shows "\<exists>i<2000. shift = np_linspace a b 2000 ! i \<and> hgt = f shift
           \<and> (\<forall>j<2000. f (np_linspace a b 2000 ! j) \<le> hgt)
           \<and> (\<forall>j<i. f (np_linspace a b 2000 ! j) < hgt)"
proof -
  let ?g = "np_linspace a b 2000"
  let ?vs = "map f ?g"
  have gl: "get_linspace [a, b] 2000 0 = Inr ?g"
    unfolding get_linspace_def py_min_pair [OF ab] py_max_pair [OF ab] by simp
  from r obtain i where am: "np_argmax ?vs = Inr i" and sh: "shift = ?g ! i"
    and h: "py_max ?vs = Inr hgt"
    unfolding zlp_refine_def gl by (auto split: sum.splits)
  have len: "length ?vs = 2000" by (simp add: length_np_linspace)
  from np_argmax_first_max [OF am] have lt: "i < length ?vs" and at: "?vs ! i = Max (set ?vs)"
    and before: "\<forall>j<i. ?vs ! j < Max (set ?vs)" and pm: "py_max ?vs = Inr (Max (set ?vs))"
    by blast+
  have hM: "hgt = Max (set ?vs)" using h pm by simp
  have i2000: "i < 2000" using lt len by simp
  have ig: "i < length ?g" using i2000 by (simp add: length_np_linspace)
  have a1: "hgt = f shift" using at hM sh ig by simp
  have a2: "\<forall>j<2000. f (?g ! j) \<le> hgt"
  proof (intro allI impI)
    fix j :: nat assume j: "j < 2000"
    then have jl: "j < length ?vs" using len by simp
    then have "?vs ! j \<in> set ?vs" by (rule nth_mem)
    then have "?vs ! j \<le> Max (set ?vs)" by simp
    moreover have "?vs ! j = f (?g ! j)" using j by (simp add: length_np_linspace)
    ultimately show "f (?g ! j) \<le> hgt" using hM by simp
  qed
  have a3: "\<forall>j<i. f (?g ! j) < hgt"
  proof (intro allI impI)
    fix j assume j: "j < i"
    then have "?vs ! j < Max (set ?vs)" using before by simp
    moreover have "?vs ! j = f (?g ! j)" using j i2000 by (simp add: length_np_linspace)
    ultimately show "f (?g ! j) < hgt" using hM by simp
  qed
  from i2000 sh a1 a2 a3 show ?thesis by blast
qed

lemma get_HWHM_span:
  assumes "get_HWHM l = Inr w"
  shows "w = \<bar>fst (data l) ! last (filter (\<lambda>i. Max (set (snd (data l))) / 2 < snd (data l) ! i)
                                      [0..<length (snd (data l))])
             - fst (data l) ! hd (filter (\<lambda>i. Max (set (snd (data l))) / 2 < snd (data l) ! i)
                                      [0..<length (snd (data l))])\<bar>"
proof -
  have ne: "snd (data l) \<noteq> []"
    using assms by (auto simp: get_HWHM_def Let_def)
  show ?thesis
    using assms
    by (auto simp: get_HWHM_def Let_def py_max_Max [OF ne] split: if_splits)
qed

text \<open>
  C3, as the code has it. When \<^verbatim>\<open>find_zlp_max\<close> returns \<open>(shift, hgt)\<close>, with \<open>p\<close> the
  coarse position of pass 1 and \<open>w\<close> the value of \<^verbatim>\<open>get_HWHM\<close>: \<open>w\<close> is the distance
  between the first and the last raw sample above half the raw maximum, the window of
  pass 2 is [p - 3/2 w, p + 3/2 w], \<open>shift\<close> is the first point of the 2000-point grid
  on that window where the spline is largest, \<open>hgt\<close> is the spline there, and \<open>hgt\<close>
  is stored in the object.
\<close>

theorem find_zlp_max_window:
  assumes run: "find_zlp_max ext l = (Inr (shift, hgt), l')"
  shows "\<exists>y_spl p w.
           spline ext (data l) = Inr y_spl \<and> zlp_coarse y_spl l = Inr p \<and> get_HWHM l = Inr w
         \<and> w = \<bar>fst (data l) ! last (filter (\<lambda>i. Max (set (snd (data l))) / 2 < snd (data l) ! i)
                                        [0..<length (snd (data l))])
               - fst (data l) ! hd (filter (\<lambda>i. Max (set (snd (data l))) / 2 < snd (data l) ! i)
                                        [0..<length (snd (data l))])\<bar>
         \<and> (\<exists>i<2000. shift = np_linspace (p - 3/2 * w) (p + 3/2 * w) 2000 ! i
               \<and> hgt = y_spl shift
               \<and> (\<forall>j<2000. y_spl (np_linspace (p - 3/2 * w) (p + 3/2 * w) 2000 ! j) \<le> hgt)
               \<and> (\<forall>j<i. y_spl (np_linspace (p - 3/2 * w) (p + 3/2 * w) 2000 ! j) < hgt))
         \<and> l' = l\<lparr>height := hgt\<rparr>"
proof -
  from run obtain y_spl p w where sp: "spline ext (data l) = Inr y_spl"
    and c: "zlp_coarse y_spl l = Inr p" and w: "get_HWHM l = Inr w"
    and r: "zlp_refine y_spl (zlp_xrange p w) = Inr (shift, hgt)"
    by (auto simp: find_zlp_max_def split: sum.splits prod.splits)
  have l': "l' = l\<lparr>height := hgt\<rparr>"
    using find_zlp_max_object [OF run] by simp
  have w0: "0 \<le> w" using w by (rule get_HWHM_nonneg)
  have xr: "zlp_xrange p w = [p - 3/2 * w, p + 3/2 * w]"
    by (simp add: zlp_xrange_def num_sigma_def)
  have ab: "p - 3/2 * w \<le> p + 3/2 * w" using w0 by simp
  note span = get_HWHM_span [OF w]
  note ref = zlp_refine_spec [OF r [unfolded xr] ab]
  from sp c w span ref l' show ?thesis by blast
qed

text \<open>
  The decreasing curve: coarse position 2, width 1, window [1/2, 7/2], and the spline
  is largest at the left end of the window.
\<close>

theorem find_zlp_max_window_witness:
  "find_zlp_max ext_line L_down = (Inr (1/2, 11/2), L_down\<lparr>height := 11/2\<rparr>)
   \<and> (\<exists>y_spl p w.
           spline ext_line (data L_down) = Inr y_spl \<and> zlp_coarse y_spl L_down = Inr p
         \<and> get_HWHM L_down = Inr w \<and> w = 1
         \<and> (\<exists>i. i < 2000 \<and> 1/2 = np_linspace (p - 3/2 * w) (p + 3/2 * w) 2000 ! i
               \<and> 11/2 = y_spl (1/2)))"
proof -
  note t = find_zlp_max_window [OF fz_down]
  have w: "get_HWHM L_down = Inr 1" by (rule hw_down)
  from t obtain y_spl p w where a: "spline ext_line (data L_down) = Inr y_spl"
    "zlp_coarse y_spl L_down = Inr p" "get_HWHM L_down = Inr w"
    and b: "\<exists>i<2000. 1/2 = np_linspace (p - 3/2 * w) (p + 3/2 * w) 2000 ! i \<and> 11/2 = y_spl (1/2)"
    by blast
  have w1: "w = 1" using a(3) w by simp
  from b obtain i where "i < 2000" "1/2 = np_linspace (p - 3/2 * w) (p + 3/2 * w) 2000 ! i"
    "11/2 = y_spl (1/2)" by blast
  with a w1 fz_down show ?thesis by blast
qed

subsection \<open>The two windows on a curve with its peak in the middle\<close>

lemma np_argmax_eqI:
  assumes k: "k < length vs" and le: "\<forall>j<length vs. vs ! j \<le> vs ! k"
    and lt: "\<forall>j<k. vs ! j < vs ! k"
  shows "np_argmax vs = Inr k \<and> py_max vs = Inr (vs ! k)"
proof -
  have ne: "vs \<noteq> []" using k by auto
  have M: "Max (set vs) = vs ! k"
  proof (rule Max_eqI)
    show "finite (set vs)" by simp
    show "\<And>y. y \<in> set vs \<Longrightarrow> y \<le> vs ! k" using le by (auto simp: in_set_conv_nth)
    show "vs ! k \<in> set vs" using k by simp
  qed
  obtain i where i: "np_argmax vs = Inr i"
    using ne by (cases vs) auto
  from np_argmax_first_max [OF i] have il: "i < length vs" and at: "vs ! i = vs ! k"
    and before: "\<forall>j<i. vs ! j < vs ! k" and pm: "py_max vs = Inr (vs ! k)"
    unfolding M by blast+
  have "i = k"
  proof (rule ccontr)
    assume "i \<noteq> k"
    then consider "i < k" | "k < i" by linarith
    then show False
    proof cases
      case 1
      then show False using lt at by auto
    next
      case 2
      then show False using before by auto
    qed
  qed
  with i pm show ?thesis by simp
qed

lemma nth_np_linspace:
  "j < num \<Longrightarrow> np_linspace a b num ! j = a + real j * ((b - a) / real (num - 1))"
  by (simp add: np_linspace_def)

lemma nearest_left:
  fixes a s c :: real
  assumes s: "0 < s" and le: "a + real k * s \<le> c"
    and tie: "c - (a + real k * s) \<le> a + real (Suc k) * s - c"
  shows "\<bar>a + real k * s - c\<bar> \<le> \<bar>a + real j * s - c\<bar>"
    and "j < k \<Longrightarrow> \<bar>a + real k * s - c\<bar> < \<bar>a + real j * s - c\<bar>"
proof -
  have mono: "\<And>m n. m \<le> n \<Longrightarrow> real m * s \<le> real n * s"
    using s by (simp add: mult_right_mono)
  show "\<bar>a + real k * s - c\<bar> \<le> \<bar>a + real j * s - c\<bar>"
  proof (cases "j \<le> k")
    case True
    then have "real j * s \<le> real k * s" by (rule mono)
    then show ?thesis using le by linarith
  next
    case False
    then have "Suc k \<le> j" by simp
    then have "real (Suc k) * s \<le> real j * s" by (rule mono)
    then show ?thesis using le tie by linarith
  qed
  show "\<bar>a + real k * s - c\<bar> < \<bar>a + real j * s - c\<bar>" if "j < k"
  proof -
    have "real j * s < real k * s" using that s by simp
    then show ?thesis using le by linarith
  qed
qed

lemma nearest_right:
  fixes a s c :: real
  assumes s: "0 < s" and kpos: "0 < k" and ge: "c \<le> a + real k * s"
    and lt: "a + real k * s - c < c - (a + real (k - 1) * s)"
  shows "\<bar>a + real k * s - c\<bar> \<le> \<bar>a + real j * s - c\<bar>"
    and "j < k \<Longrightarrow> \<bar>a + real k * s - c\<bar> < \<bar>a + real j * s - c\<bar>"
proof -
  have mono: "\<And>m n. m \<le> n \<Longrightarrow> real m * s \<le> real n * s"
    using s by (simp add: mult_right_mono)
  have low: "\<bar>a + real k * s - c\<bar> < \<bar>a + real j * s - c\<bar>" if "j < k" for j
  proof -
    have "j \<le> k - 1" using that by simp
    then have "real j * s \<le> real (k - 1) * s" by (rule mono)
    then show ?thesis using ge lt by linarith
  qed
  show "\<bar>a + real k * s - c\<bar> \<le> \<bar>a + real j * s - c\<bar>"
  proof (cases "j < k")
    case True
    then show ?thesis using low [of j] by simp
  next
    case False
    then have "k \<le> j" by simp
    then have "real k * s \<le> real j * s" by (rule mono)
    then show ?thesis using ge by linarith
  qed
  show "\<bar>a + real k * s - c\<bar> < \<bar>a + real j * s - c\<bar>" if "j < k"
    using that by (rule low)
qed

lemma parabola_le:
  fixes s t :: real
  shows "\<bar>s - 2\<bar> \<le> \<bar>t - 2\<bar> \<Longrightarrow> 8 - 2 * (t - 2)\<^sup>2 \<le> 8 - 2 * (s - 2)\<^sup>2"
    and "\<bar>s - 2\<bar> < \<bar>t - 2\<bar> \<Longrightarrow> 8 - 2 * (t - 2)\<^sup>2 < 8 - 2 * (s - 2)\<^sup>2"
  using power2_mono [of "s - 2" "t - 2"] power2_strict_mono [of "s - 2" "t - 2"] by simp_all

lemma grid_argmax_parabola:
  fixes a b :: real
  assumes ab: "a \<le> b" and k: "k < 2000"
    and near: "\<forall>j<2000. \<bar>a + real k * ((b - a) / 1999) - 2\<bar> \<le> \<bar>a + real j * ((b - a) / 1999) - 2\<bar>"
    and first: "\<forall>j<k. \<bar>a + real k * ((b - a) / 1999) - 2\<bar> < \<bar>a + real j * ((b - a) / 1999) - 2\<bar>"
  shows "np_argmax (map (\<lambda>t. 8 - 2 * (t - 2)\<^sup>2) (np_linspace a b 2000)) = Inr k"
    and "py_max (map (\<lambda>t. 8 - 2 * (t - 2)\<^sup>2) (np_linspace a b 2000))
           = Inr (8 - 2 * (a + real k * ((b - a) / 1999) - 2)\<^sup>2)"
    and "np_linspace a b 2000 ! k = a + real k * ((b - a) / 1999)"
proof -
  let ?f = "\<lambda>t::real. 8 - 2 * (t - 2)\<^sup>2"
  let ?g = "np_linspace a b 2000"
  have nth: "\<And>j. j < 2000 \<Longrightarrow> ?g ! j = a + real j * ((b - a) / 1999)"
    by (simp add: nth_np_linspace)
  have len: "length (map ?f ?g) = 2000" by (simp add: length_np_linspace)
  have vn: "\<And>j. j < 2000 \<Longrightarrow> map ?f ?g ! j = ?f (a + real j * ((b - a) / 1999))"
    using nth by (simp add: length_np_linspace)
  have le: "\<forall>j<length (map ?f ?g). map ?f ?g ! j \<le> map ?f ?g ! k"
  proof (intro allI impI)
    fix j assume "j < length (map ?f ?g)"
    then have j: "j < 2000" using len by simp
    show "map ?f ?g ! j \<le> map ?f ?g ! k"
      unfolding vn [OF j] vn [OF k] using near j by (intro parabola_le(1)) simp
  qed
  have lt: "\<forall>j<k. map ?f ?g ! j < map ?f ?g ! k"
  proof (intro allI impI)
    fix j assume jk: "j < k"
    then have j: "j < 2000" using k by simp
    show "map ?f ?g ! j < map ?f ?g ! k"
      unfolding vn [OF j] vn [OF k] using first jk by (intro parabola_le(2)) simp
  qed
  have kl: "k < length (map ?f ?g)" using k len by simp
  from np_argmax_eqI [OF kl le lt] show "np_argmax (map ?f ?g) = Inr k"
    and "py_max (map ?f ?g) = Inr (8 - 2 * (a + real k * ((b - a) / 1999) - 2)\<^sup>2)"
    unfolding vn [OF k] by simp_all
  show "?g ! k = a + real k * ((b - a) / 1999)" using nth [OF k] .
qed

lemma zlp_refine_parabola:
  fixes a b :: real
  assumes ab: "a \<le> b" and k: "k < 2000"
    and near: "\<forall>j<2000. \<bar>a + real k * ((b - a) / 1999) - 2\<bar> \<le> \<bar>a + real j * ((b - a) / 1999) - 2\<bar>"
    and first: "\<forall>j<k. \<bar>a + real k * ((b - a) / 1999) - 2\<bar> < \<bar>a + real j * ((b - a) / 1999) - 2\<bar>"
  shows "zlp_refine (\<lambda>t. 8 - 2 * (t - 2)\<^sup>2) [a, b] =
           Inr (a + real k * ((b - a) / 1999), 8 - 2 * (a + real k * ((b - a) / 1999) - 2)\<^sup>2)"
proof -
  have gl: "get_linspace [a, b] 2000 0 = Inr (np_linspace a b 2000)"
    unfolding get_linspace_def py_min_pair [OF ab] py_max_pair [OF ab] by simp
  note g = grid_argmax_parabola [OF ab k near first]
  show ?thesis
    unfolding zlp_refine_def gl sum.case g ..
qed

lemma zlp_coarse_parabola:
  fixes a b :: real
  assumes mn: "py_min (fst (data l)) = Inr a" and mx: "py_max (fst (data l)) = Inr b"
    and ab: "a \<le> b" and k: "k < 2000"
    and near: "\<forall>j<2000. \<bar>a + real k * ((b - a) / 1999) - 2\<bar> \<le> \<bar>a + real j * ((b - a) / 1999) - 2\<bar>"
    and first: "\<forall>j<k. \<bar>a + real k * ((b - a) / 1999) - 2\<bar> < \<bar>a + real j * ((b - a) / 1999) - 2\<bar>"
  shows "zlp_coarse (\<lambda>t. 8 - 2 * (t - 2)\<^sup>2) l = Inr (a + real k * ((b - a) / 1999))"
proof -
  have gl: "get_linspace [a, b] 2000 0 = Inr (np_linspace a b 2000)"
    unfolding get_linspace_def py_min_pair [OF ab] py_max_pair [OF ab] by simp
  note g = grid_argmax_parabola [OF ab k near first]
  show ?thesis
    unfolding zlp_coarse_def mn mx sum.case gl g ..
qed

lemma grid_coarse:
  "\<forall>j<2000. \<bar>0 + real 999 * ((4 - 0) / 1999) - 2\<bar> \<le> \<bar>0 + real j * ((4 - 0) / 1999) - (2::real)\<bar>"
  "\<forall>j<999. \<bar>0 + real 999 * ((4 - 0) / 1999) - 2\<bar> < \<bar>0 + real j * ((4 - 0) / 1999) - (2::real)\<bar>"
proof -
  have s: "(0::real) < (4 - 0) / 1999" by simp
  have le: "(0::real) + real 999 * ((4 - 0) / 1999) \<le> 2" by simp
  have tie: "(2::real) - (0 + real 999 * ((4 - 0) / 1999)) \<le> 0 + real (Suc 999) * ((4 - 0) / 1999) - 2"
    by simp
  show "\<forall>j<2000. \<bar>0 + real 999 * ((4 - 0) / 1999) - 2\<bar> \<le> \<bar>0 + real j * ((4 - 0) / 1999) - (2::real)\<bar>"
    using nearest_left(1) [OF s le tie] by blast
  show "\<forall>j<999. \<bar>0 + real 999 * ((4 - 0) / 1999) - 2\<bar> < \<bar>0 + real j * ((4 - 0) / 1999) - (2::real)\<bar>"
    using nearest_left(2) [OF s le tie] by blast
qed

lemma coarse_peak: "zlp_coarse (\<lambda>t. 8 - 2 * (t - 2)\<^sup>2) L_peak = Inr (3996 / 1999)"
proof -
  have mn: "py_min (fst (data L_peak)) = Inr 0" and mx: "py_max (fst (data L_peak)) = Inr 4"
    by (simp_all add: L_peak_def)
  have ab: "(0::real) \<le> 4" and k: "(999::nat) < 2000" by simp_all
  show ?thesis
    using zlp_coarse_parabola [OF mn mx ab k grid_coarse] by simp
qed

lemma grid_code:
  "\<forall>j<2000. \<bar>- (2001 / 1999) + real 1000 * ((9993 / 1999 - - (2001 / 1999)) / 1999) - 2\<bar>
             \<le> \<bar>- (2001 / 1999) + real j * ((9993 / 1999 - - (2001 / 1999)) / 1999) - (2::real)\<bar>"
  "\<forall>j<1000. \<bar>- (2001 / 1999) + real 1000 * ((9993 / 1999 - - (2001 / 1999)) / 1999) - 2\<bar>
             < \<bar>- (2001 / 1999) + real j * ((9993 / 1999 - - (2001 / 1999)) / 1999) - (2::real)\<bar>"
proof -
  let ?a = "- (2001 / 1999) :: real" and ?s = "(9993 / 1999 - - (2001 / 1999)) / 1999 :: real"
  have s: "0 < ?s" by simp
  have k: "(0::nat) < 1000" by simp
  have ge: "2 \<le> ?a + real 1000 * ?s" by simp
  have lt: "?a + real 1000 * ?s - 2 < 2 - (?a + real (1000 - 1) * ?s)" by simp
  show "\<forall>j<2000. \<bar>?a + real 1000 * ?s - 2\<bar> \<le> \<bar>?a + real j * ?s - 2\<bar>"
    using nearest_right(1) [OF s k ge lt] by blast
  show "\<forall>j<1000. \<bar>?a + real 1000 * ?s - 2\<bar> < \<bar>?a + real j * ?s - 2\<bar>"
    using nearest_right(2) [OF s k ge lt] by blast
qed

lemma grid_spec:
  "\<forall>j<2000. \<bar>1995 / 3998 + real 1000 * ((13989 / 3998 - 1995 / 3998) / 1999) - 2\<bar>
             \<le> \<bar>1995 / 3998 + real j * ((13989 / 3998 - 1995 / 3998) / 1999) - (2::real)\<bar>"
  "\<forall>j<1000. \<bar>1995 / 3998 + real 1000 * ((13989 / 3998 - 1995 / 3998) / 1999) - 2\<bar>
             < \<bar>1995 / 3998 + real j * ((13989 / 3998 - 1995 / 3998) / 1999) - (2::real)\<bar>"
proof -
  let ?a = "1995 / 3998 :: real" and ?s = "(13989 / 3998 - 1995 / 3998) / 1999 :: real"
  have s: "0 < ?s" by simp
  have le: "?a + real 1000 * ?s \<le> 2" by simp
  have tie: "2 - (?a + real 1000 * ?s) \<le> ?a + real (Suc 1000) * ?s - 2" by simp
  show "\<forall>j<2000. \<bar>?a + real 1000 * ?s - 2\<bar> \<le> \<bar>?a + real j * ?s - 2\<bar>"
    using nearest_left(1) [OF s le tie] by blast
  show "\<forall>j<1000. \<bar>?a + real 1000 * ?s - 2\<bar> < \<bar>?a + real j * ?s - 2\<bar>"
    using nearest_left(2) [OF s le tie] by blast
qed

lemma refine_code:
  "zlp_refine (\<lambda>t. 8 - 2 * (t - 2)\<^sup>2) [- (2001 / 1999), 9993 / 1999]
     = Inr (3999 / 1999, 31968006 / 3996001)"
proof -
  have ab: "- (2001 / 1999) \<le> (9993 / 1999 :: real)" and k: "(1000::nat) < 2000" by simp_all
  show ?thesis
    using zlp_refine_parabola [OF ab k grid_code] by (simp add: power2_eq_square)
qed

lemma refine_spec:
  "zlp_refine (\<lambda>t. 8 - 2 * (t - 2)\<^sup>2) [1995 / 3998, 13989 / 3998]
     = Inr (7995 / 3998, 63936015 / 7992002)"
proof -
  have ab: "1995 / 3998 \<le> (13989 / 3998 :: real)" and k: "(1000::nat) < 2000" by simp_all
  show ?thesis
    using zlp_refine_parabola [OF ab k grid_spec] by (simp add: power2_eq_square)
qed

lemma parabola_fun: "parabola = (\<lambda>t. 8 - 2 * (t - 2)\<^sup>2)"
  by (rule ext) (simp add: parabola_def)

lemma sp_peak: "spline ext_parabola (data L_peak) = Inr parabola"
  by (simp add: spline_def ext_parabola_def L_peak_def parabola_def power2_eq_square)

lemma hw_peak: "get_HWHM L_peak = Inr 2"
  by (simp add: get_HWHM_def L_peak_def upt_rec)

lemma sw_peak: "spec_single_sided_width L_peak = Inr 1"
  by (simp add: spec_single_sided_width_def L_peak_def upt_rec)

lemma window_code: "zlp_xrange (3996 / 1999) 2 = [- (2001 / 1999), 9993 / 1999]"
  by (simp add: zlp_xrange_def num_sigma_def)

lemma window_spec: "zlp_xrange (3996 / 1999) 1 = [1995 / 3998, 13989 / 3998]"
  by (simp add: zlp_xrange_def num_sigma_def)

text \<open>
  C3 as stated fails. The curve through (0, 0), (1, 6), (2, 8), (3, 6), (4, 0) has its raw
  maximum 8 at x = 2, and the only sample left of it above 4 is at x = 1: the
  single-sided width is 1. The width the code uses is the distance from x = 1 to
  x = 3, which is 2. The samples lie on a parabola, which is their spline; pass 1 finds
  the position 3996/1999. The window of the code there is [-2001/1999, 9993/1999], of
  half-width 3, and the method returns the shift 3999/1999; with the single-sided
  width the window would be [1995/3998, 13989/3998], of half-width 3/2, and the shift
  7995/3998.
\<close>

theorem zlp_window_single_sided_counterexample:
  "get_HWHM L_peak = Inr 2
   \<and> spec_single_sided_width L_peak = Inr 1
   \<and> spline ext_parabola (data L_peak) = Inr parabola
   \<and> zlp_coarse parabola L_peak = Inr (3996 / 1999)
   \<and> zlp_xrange (3996 / 1999) 2 = [- (2001 / 1999), 9993 / 1999]
   \<and> zlp_xrange (3996 / 1999) 1 = [1995 / 3998, 13989 / 3998]
   \<and> find_zlp_max ext_parabola L_peak
       = (Inr (3999 / 1999, 31968006 / 3996001), L_peak\<lparr>height := 31968006 / 3996001\<rparr>)
   \<and> spec_find_zlp_max ext_parabola L_peak
       = (Inr (7995 / 3998, 63936015 / 7992002), L_peak\<lparr>height := 63936015 / 7992002\<rparr>)"
proof -
  have coarse: "zlp_coarse parabola L_peak = Inr (3996 / 1999)"
    unfolding parabola_fun by (rule coarse_peak)
  have rc: "zlp_refine parabola [- (2001 / 1999), 9993 / 1999]
              = Inr (3999 / 1999, 31968006 / 3996001)"
    unfolding parabola_fun by (rule refine_code)
  have rs: "zlp_refine parabola [1995 / 3998, 13989 / 3998]
              = Inr (7995 / 3998, 63936015 / 7992002)"
    unfolding parabola_fun by (rule refine_spec)
  have code: "find_zlp_max ext_parabola L_peak
       = (Inr (3999 / 1999, 31968006 / 3996001), L_peak\<lparr>height := 31968006 / 3996001\<rparr>)"
    unfolding find_zlp_max_def sp_peak sum.case coarse hw_peak window_code rc prod.case ..
  have spec: "spec_find_zlp_max ext_parabola L_peak
       = (Inr (7995 / 3998, 63936015 / 7992002), L_peak\<lparr>height := 63936015 / 7992002\<rparr>)"
    unfolding spec_find_zlp_max_def sp_peak sum.case coarse sw_peak window_spec rs prod.case ..
  from hw_peak sw_peak sp_peak coarse window_code window_spec code spec show ?thesis
    by (intro conjI)
qed

end
